theory Spec2Isabelle
  imports Main "HOL-Library.Word"
begin

section \<open>Session registry and signalling relay (server.js)\<close>

text \<open>
  The server keeps no state of its own: room membership lives in Socket.IO's adapter,
  \<^verbatim>\<open>io.sockets.adapter.rooms\<close>, a \<^verbatim>\<open>Map\<close> from room name to a \<^verbatim>\<open>Set\<close> of socket
  ids. The \<^verbatim>\<open>Map\<close> is modelled as a partial function and the \<^verbatim>\<open>Set\<close> as the list of
  its elements in insertion order (the order in which JavaScript iterates a \<^verbatim>\<open>Set\<close>);
  adding an element that is already present changes nothing. What a handler sends is
  returned as a list of pairs (recipient, message), in the order of the \<^verbatim>\<open>emit\<close> calls.
  Lines written with \<^verbatim>\<open>console.log\<close> are not part of the model.
\<close>

type_synonym socket_id = string
type_synonym room_name = string

text \<open>The notifications of the \<^verbatim>\<open>join\<close> handler (\<^verbatim>\<open>joined\<close> carries
  \<^verbatim>\<open>{room, peers}\<close>), and the three relayed events with their payload.\<close>

datatype room_msg =
    RoomFull
  | Joined room_name nat
  | Ready
  | Initiate

datatype 'p signal_msg =
    SignalOffer 'p
  | SignalAnswer 'p
  | SignalIceCandidate 'p

type_synonym 'm emission = "socket_id \<times> 'm"

record io_server =
  rooms :: "room_name \<rightharpoonup> socket_id list"

definition DEFAULT_ROOM :: room_name where
  "DEFAULT_ROOM = ''main-room''"

text \<open>\<^verbatim>\<open>const room = io.sockets.adapter.rooms.get(roomName); return room ? room.size : 0;\<close>\<close>

definition getRoomSize :: "room_name \<Rightarrow> io_server \<Rightarrow> nat" where
  "getRoomSize roomName io =
     (case rooms io roomName of None \<Rightarrow> 0 | Some room \<Rightarrow> length room)"

text \<open>\<^verbatim>\<open>socket.join(room)\<close>: creates the room when it does not exist, then \<^verbatim>\<open>Set.add\<close>.\<close>

definition socket_join :: "socket_id \<Rightarrow> room_name \<Rightarrow> io_server \<Rightarrow> io_server" where
  "socket_join sid roomName io =
     io\<lparr>rooms := (rooms io)(roomName \<mapsto>
        (case rooms io roomName of
           None \<Rightarrow> [sid]
         | Some room \<Rightarrow> if sid \<in> set room then room else room @ [sid]))\<rparr>"

text \<open>The recipients of \<^verbatim>\<open>io.to(room).emit\<close> (every member) and of
  \<^verbatim>\<open>socket.to(room).emit\<close> (every member but the sending socket).\<close>

definition io_to :: "room_name \<Rightarrow> io_server \<Rightarrow> socket_id list" where
  "io_to roomName io = (case rooms io roomName of None \<Rightarrow> [] | Some room \<Rightarrow> room)"

definition socket_to :: "socket_id \<Rightarrow> room_name \<Rightarrow> io_server \<Rightarrow> socket_id list" where
  "socket_to sid roomName io = filter (\<lambda>r. r \<noteq> sid) (io_to roomName io)"

text \<open>The \<^verbatim>\<open>socket.on('join')\<close> handler of the socket \<open>sid\<close>. (The copy in tandem-app
  also stores a user type on the socket and repeats it in \<^verbatim>\<open>joined\<close>; the size test,
  the membership and the other emissions are the same.)\<close>

definition join :: "socket_id \<Rightarrow> io_server \<Rightarrow> io_server \<times> room_msg emission list" where
  "join sid io =
     (let sz = getRoomSize DEFAULT_ROOM io in
      if sz \<ge> 2 then (io, [(sid, RoomFull)])
      else
        let io' = socket_join sid DEFAULT_ROOM io;
            newSize = getRoomSize DEFAULT_ROOM io'
        in (io', [(sid, Joined DEFAULT_ROOM newSize)] @
                 (if newSize = 2
                  then map (\<lambda>r. (r, Ready)) (io_to DEFAULT_ROOM io') @ [(sid, Initiate)]
                  else [])))"

text \<open>A sequence of join requests, handled one after the other (the event loop runs
  each handler to completion); the emissions are collected in order.\<close>

fun joins :: "socket_id list \<Rightarrow> io_server \<Rightarrow> io_server \<times> room_msg emission list" where
  "joins [] io = (io, [])"
| "joins (sid # sids) io =
     (case join sid io of (io', out) \<Rightarrow>
        (case joins sids io' of (io'', out') \<Rightarrow> (io'', out @ out')))"

text \<open>The server right after start: no room exists.\<close>

definition initial_io :: io_server where
  "initial_io = \<lparr>rooms = Map.empty\<rparr>"

text \<open>The sockets that were sent \<^verbatim>\<open>initiate\<close>, in order, read off a list of
  emissions.\<close>

definition initiate_recipients :: "room_msg emission list \<Rightarrow> socket_id list" where
  "initiate_recipients out = map fst (filter (\<lambda>e. snd e = Initiate) out)"

text \<open>The three relay handlers: \<^verbatim>\<open>socket.to(DEFAULT_ROOM).emit(<event>, payload)\<close>.
  The payload is whatever the client sent; the server never looks into it.\<close>

definition relay_offer :: "socket_id \<Rightarrow> 'p \<Rightarrow> io_server \<Rightarrow> 'p signal_msg emission list" where
  "relay_offer sid payload io =
     map (\<lambda>r. (r, SignalOffer payload)) (socket_to sid DEFAULT_ROOM io)"

definition relay_answer :: "socket_id \<Rightarrow> 'p \<Rightarrow> io_server \<Rightarrow> 'p signal_msg emission list" where
  "relay_answer sid payload io =
     map (\<lambda>r. (r, SignalAnswer payload)) (socket_to sid DEFAULT_ROOM io)"

definition relay_ice_candidate :: "socket_id \<Rightarrow> 'p \<Rightarrow> io_server \<Rightarrow> 'p signal_msg emission list" where
  "relay_ice_candidate sid payload io =
     map (\<lambda>r. (r, SignalIceCandidate payload)) (socket_to sid DEFAULT_ROOM io)"


section \<open>Negotiation handlers of the client (public/script.js)\<close>

text \<open>
  The client keeps four module variables: \<^verbatim>\<open>pc\<close> (undefined until
  \<^verbatim>\<open>createPeerConnection\<close> has run), \<^verbatim>\<open>makingOffer\<close>, \<^verbatim>\<open>ignoreOffer\<close> and
  \<^verbatim>\<open>isSettingRemoteAnswerPending\<close>. It stores no role: nothing in the script records
  whether this peer is the initiator.

  \<^verbatim>\<open>RTCPeerConnection\<close> belongs to the browser, not to the repository, so the handlers
  take it as a parameter: a record of the properties and methods they use, over an
  abstract connection state \<open>'pc\<close>. A method that rejects returns \<open>Inl\<close> of the error
  (the connection is then as it was); one that resolves returns \<open>Inr\<close> of its result.
  Each handler is modelled as running to completion; what happens when another message
  is handled during one of its \<^verbatim>\<open>await\<close>s is seen by the second handler as a state with
  \<open>makingOffer\<close> set or with a signalling state other than stable.
  Of the console output only \<^verbatim>\<open>console.error\<close> is kept (with its first argument).

  The signalling states are the three that an exchange of offers and answers passes
  through; the script never sends a provisional answer and never closes the connection.
\<close>

datatype signaling_state = Stable | HaveLocalOffer | HaveRemoteOffer

datatype sdp_type = OfferT | AnswerT

record description =
  dtype :: sdp_type
  sdp_text :: string

type_synonym candidate_init = string

text \<open>The payload of a signalling message, \<^verbatim>\<open>{sdp}\<close> or \<^verbatim>\<open>{candidate}\<close>; a field that
  is missing, \<^verbatim>\<open>null\<close> or \<^verbatim>\<open>undefined\<close> is \<open>None\<close>. For the offer and answer
  handlers a payload that is itself undefined behaves as one without \<^verbatim>\<open>sdp\<close>
  (\<^verbatim>\<open>payload?.sdp\<close>).\<close>

record payload =
  sdp :: "description option"
  candidate :: "candidate_init option"

datatype js_error = TypeError | InvalidStateError | OperationError

record 'pc rtc_api =
  signalingState :: "'pc \<Rightarrow> signaling_state"
  localDescription :: "'pc \<Rightarrow> description option"
  remoteDescription :: "'pc \<Rightarrow> description option"
  createOffer :: "'pc \<Rightarrow> js_error + description"
  createAnswer :: "'pc \<Rightarrow> js_error + description"
  setLocalDescription :: "description \<Rightarrow> 'pc \<Rightarrow> js_error + 'pc"
  setRemoteDescription :: "description \<Rightarrow> 'pc \<Rightarrow> js_error + 'pc"
  addIceCandidate :: "candidate_init \<Rightarrow> 'pc \<Rightarrow> js_error + 'pc"

record 'pc client =
  pc :: "'pc option"
  makingOffer :: bool
  ignoreOffer :: bool
  isSettingRemoteAnswerPending :: bool

datatype client_effect =
    Emit "payload signal_msg"
  | ConsoleError string

text \<open>\<^verbatim>\<open>makingOffer || pc.signalingState !== 'stable'\<close>: the right operand is read only
  when \<open>makingOffer\<close> is false, and reading it throws a TypeError while \<^verbatim>\<open>pc\<close> is
  undefined.\<close>

definition offerCollision :: "'pc rtc_api \<Rightarrow> 'pc client \<Rightarrow> js_error + bool" where
  "offerCollision api c =
     (if makingOffer c then Inr True
      else case pc c of
             None \<Rightarrow> Inl TypeError
           | Some p \<Rightarrow> Inr (signalingState api p \<noteq> Stable))"

text \<open>The \<^verbatim>\<open>socket.on('signal:offer')\<close> handler (the same text in both copies of
  script.js). After \<open>ignoreOffer\<close> is assigned, the argument of the \<^verbatim>\<open>console.log\<close>
  call reads \<^verbatim>\<open>pc.signalingState\<close> once more, which throws while \<^verbatim>\<open>pc\<close> is undefined;
  the \<^verbatim>\<open>catch\<close> block logs every error of the \<^verbatim>\<open>try\<close> block with the same message.\<close>

definition on_signal_offer ::
  "'pc rtc_api \<Rightarrow> payload \<Rightarrow> 'pc client \<Rightarrow> 'pc client \<times> client_effect list" where
  "on_signal_offer api pl c =
     (case sdp pl of
        None \<Rightarrow> (c, [])
      | Some offer \<Rightarrow>
          (case offerCollision api c of
             Inl e \<Rightarrow> (c, [ConsoleError ''Error handling remote offer''])
           | Inr collision \<Rightarrow>
               let c1 = c\<lparr>ignoreOffer := (if \<not> collision then False else True)\<rparr> in
               (case pc c1 of
                  None \<Rightarrow> (c1, [ConsoleError ''Error handling remote offer''])
                | Some p \<Rightarrow>
                    if ignoreOffer c1 then (c1, [])
                    else
                      (case setRemoteDescription api offer p of
                         Inl e \<Rightarrow> (c1, [ConsoleError ''Error handling remote offer''])
                       | Inr p1 \<Rightarrow>
                           (case createAnswer api p1 of
                              Inl e \<Rightarrow> (c1\<lparr>pc := Some p1\<rparr>,
                                        [ConsoleError ''Error handling remote offer''])
                            | Inr answer \<Rightarrow>
                                (case setLocalDescription api answer p1 of
                                   Inl e \<Rightarrow> (c1\<lparr>pc := Some p1\<rparr>,
                                             [ConsoleError ''Error handling remote offer''])
                                 | Inr p2 \<Rightarrow>
                                     (c1\<lparr>pc := Some p2\<rparr>,
                                      [Emit (SignalAnswer
                                         \<lparr>sdp = localDescription api p2,
                                          candidate = None\<rparr>)])))))))"

text \<open>The \<^verbatim>\<open>socket.on('signal:answer')\<close> handler of chat-vid's script.js; the
  \<^verbatim>\<open>finally\<close> block clears the flag on every path through the \<^verbatim>\<open>try\<close>.\<close>

definition on_signal_answer ::
  "'pc rtc_api \<Rightarrow> payload \<Rightarrow> 'pc client \<Rightarrow> 'pc client \<times> client_effect list" where
  "on_signal_answer api pl c =
     (case sdp pl of
        None \<Rightarrow> (c, [])
      | Some answer \<Rightarrow>
          let c1 = c\<lparr>isSettingRemoteAnswerPending := True\<rparr> in
          (case pc c1 of
             None \<Rightarrow> (c1\<lparr>isSettingRemoteAnswerPending := False\<rparr>,
                       [ConsoleError ''Error applying remote answer''])
           | Some p \<Rightarrow>
               (case setRemoteDescription api answer p of
                  Inl e \<Rightarrow> (c1\<lparr>isSettingRemoteAnswerPending := False\<rparr>,
                            [ConsoleError ''Error applying remote answer''])
                | Inr p1 \<Rightarrow>
                    (c1\<lparr>pc := Some p1, isSettingRemoteAnswerPending := False\<rparr>, []))))"

text \<open>The same handler in tandem-app's script.js, which has no pending flag.\<close>

definition on_signal_answer_tandem ::
  "'pc rtc_api \<Rightarrow> payload \<Rightarrow> 'pc client \<Rightarrow> 'pc client \<times> client_effect list" where
  "on_signal_answer_tandem api pl c =
     (case sdp pl of
        None \<Rightarrow> (c, [])
      | Some answer \<Rightarrow>
          (case pc c of
             None \<Rightarrow> (c, [ConsoleError ''Error applying remote answer:''])
           | Some p \<Rightarrow>
               (case setRemoteDescription api answer p of
                  Inl e \<Rightarrow> (c, [ConsoleError ''Error applying remote answer:''])
                | Inr p1 \<Rightarrow> (c\<lparr>pc := Some p1\<rparr>, []))))"

text \<open>The \<^verbatim>\<open>socket.on('signal:ice-candidate')\<close> handler:
  \<^verbatim>\<open>if (pc && candidate) await pc.addIceCandidate(candidate);\<close> inside \<^verbatim>\<open>try\<close>. The client
  has no variable that could hold a candidate for later.\<close>

definition on_signal_ice_candidate ::
  "'pc rtc_api \<Rightarrow> payload \<Rightarrow> 'pc client \<Rightarrow> 'pc client \<times> client_effect list" where
  "on_signal_ice_candidate api pl c =
     (case (pc c, candidate pl) of
        (Some p, Some cand) \<Rightarrow>
          (case addIceCandidate api cand p of
             Inl e \<Rightarrow> (c, [ConsoleError ''Error adding remote ICE candidate''])
           | Inr p1 \<Rightarrow> (c\<lparr>pc := Some p1\<rparr>, []))
      | _ \<Rightarrow> (c, []))"

text \<open>\<^verbatim>\<open>makeOffer\<close>: the flag is set on entry and cleared in \<^verbatim>\<open>finally\<close>; an error
  leaves the function (third component) and is logged by the \<^verbatim>\<open>initiate\<close> handler.\<close>

definition makeOffer ::
  "'pc rtc_api \<Rightarrow> 'pc client \<Rightarrow> 'pc client \<times> client_effect list \<times> js_error option" where
  "makeOffer api c =
     (let c1 = c\<lparr>makingOffer := True\<rparr> in
      case pc c1 of
        None \<Rightarrow> (c1\<lparr>makingOffer := False\<rparr>, [], Some TypeError)
      | Some p \<Rightarrow>
          (case createOffer api p of
             Inl e \<Rightarrow> (c1\<lparr>makingOffer := False\<rparr>, [], Some e)
           | Inr offer \<Rightarrow>
               (case setLocalDescription api offer p of
                  Inl e \<Rightarrow> (c1\<lparr>makingOffer := False\<rparr>, [], Some e)
                | Inr p1 \<Rightarrow>
                    (c1\<lparr>pc := Some p1, makingOffer := False\<rparr>,
                     [Emit (SignalOffer \<lparr>sdp = localDescription api p1, candidate = None\<rparr>)],
                     None))))"

definition on_initiate ::
  "'pc rtc_api \<Rightarrow> 'pc client \<Rightarrow> 'pc client \<times> client_effect list" where
  "on_initiate api c =
     (case makeOffer api c of
        (c', out, None) \<Rightarrow> (c', out)
      | (c', out, Some e) \<Rightarrow> (c', out @ [ConsoleError ''Error creating offer'']))"

text \<open>The client as the script leaves it once \<^verbatim>\<open>createPeerConnection\<close> has assigned
  \<^verbatim>\<open>pc\<close>.\<close>

definition new_client :: "'pc \<Rightarrow> 'pc client" where
  "new_client p =
     \<lparr>pc = Some p, makingOffer = False, ignoreOffer = False,
      isSettingRemoteAnswerPending = False\<rparr>"

subsection \<open>What the handlers rely on from the browser\<close>

text \<open>
  Four facts of the WebRTC API (W3C, ``WebRTC: Real-Time Communication in Browsers'',
  setting a session description and \<^verbatim>\<open>addIceCandidate\<close>), stated as a property of the
  parameter: an answer is generated with type answer; setting a local answer ends in
  \<^verbatim>\<open>stable\<close>; a remote answer is rejected unless a local offer is pending; a candidate
  is rejected while there is no remote description.
\<close>

definition w3c_conformant :: "'pc rtc_api \<Rightarrow> bool" where
  "w3c_conformant api \<longleftrightarrow>
     (\<forall>p a. createAnswer api p = Inr a \<longrightarrow> dtype a = AnswerT) \<and>
     (\<forall>d p p'. dtype d = AnswerT \<longrightarrow> setLocalDescription api d p = Inr p' \<longrightarrow>
        signalingState api p' = Stable) \<and>
     (\<forall>d p. dtype d = AnswerT \<longrightarrow> signalingState api p \<noteq> HaveLocalOffer \<longrightarrow>
        isl (setRemoteDescription api d p)) \<and>
     (\<forall>cand p. remoteDescription api p = None \<longrightarrow> isl (addIceCandidate api cand p))"

text \<open>
  A reference connection for evaluating the handlers on concrete inputs. Its state is the
  signalling state, the two descriptions and the remote candidates added so far; its
  methods follow the signalling-state table of the WebRTC API for offers and answers.
  A remote offer while a local offer is pending is rejected here (a browser with
  implicit rollback accepts it); no handler of the script makes that call. The SDP text
  it generates is a placeholder.
\<close>

record peer_connection =
  pc_signalingState :: signaling_state
  pc_localDescription :: "description option"
  pc_remoteDescription :: "description option"
  pc_candidates :: "candidate_init list"

definition ref_createOffer :: "peer_connection \<Rightarrow> js_error + description" where
  "ref_createOffer p = Inr \<lparr>dtype = OfferT, sdp_text = ''local-offer''\<rparr>"

definition ref_createAnswer :: "peer_connection \<Rightarrow> js_error + description" where
  "ref_createAnswer p =
     (if pc_signalingState p = HaveRemoteOffer
      then Inr \<lparr>dtype = AnswerT, sdp_text = ''local-answer''\<rparr>
      else Inl InvalidStateError)"

definition ref_setLocalDescription ::
  "description \<Rightarrow> peer_connection \<Rightarrow> js_error + peer_connection" where
  "ref_setLocalDescription d p =
     (case dtype d of
        OfferT \<Rightarrow>
          if pc_signalingState p = Stable \<or> pc_signalingState p = HaveLocalOffer
          then Inr (p\<lparr>pc_signalingState := HaveLocalOffer, pc_localDescription := Some d\<rparr>)
          else Inl InvalidStateError
      | AnswerT \<Rightarrow>
          if pc_signalingState p = HaveRemoteOffer
          then Inr (p\<lparr>pc_signalingState := Stable, pc_localDescription := Some d\<rparr>)
          else Inl InvalidStateError)"

definition ref_setRemoteDescription ::
  "description \<Rightarrow> peer_connection \<Rightarrow> js_error + peer_connection" where
  "ref_setRemoteDescription d p =
     (case dtype d of
        OfferT \<Rightarrow>
          if pc_signalingState p = Stable \<or> pc_signalingState p = HaveRemoteOffer
          then Inr (p\<lparr>pc_signalingState := HaveRemoteOffer, pc_remoteDescription := Some d\<rparr>)
          else Inl InvalidStateError
      | AnswerT \<Rightarrow>
          if pc_signalingState p = HaveLocalOffer
          then Inr (p\<lparr>pc_signalingState := Stable, pc_remoteDescription := Some d\<rparr>)
          else Inl InvalidStateError)"

definition ref_addIceCandidate ::
  "candidate_init \<Rightarrow> peer_connection \<Rightarrow> js_error + peer_connection" where
  "ref_addIceCandidate cand p =
     (if pc_remoteDescription p = None then Inl InvalidStateError
      else Inr (p\<lparr>pc_candidates := pc_candidates p @ [cand]\<rparr>))"

definition ref_api :: "peer_connection rtc_api" where
  "ref_api =
     \<lparr>signalingState = pc_signalingState,
      localDescription = pc_localDescription,
      remoteDescription = pc_remoteDescription,
      createOffer = ref_createOffer,
      createAnswer = ref_createAnswer,
      setLocalDescription = ref_setLocalDescription,
      setRemoteDescription = ref_setRemoteDescription,
      addIceCandidate = ref_addIceCandidate\<rparr>"

definition new_peer_connection :: peer_connection where
  "new_peer_connection =
     \<lparr>pc_signalingState = Stable, pc_localDescription = None,
      pc_remoteDescription = None, pc_candidates = []\<rparr>"

section \<open>Transcription stream manager (speech-to-text.js)\<close>

subsection \<open>Audio buffers\<close>

type_synonym byte = "8 word"
type_synonym int16 = "16 word"

text \<open>
  What \<^verbatim>\<open>data.buffer\<close> can be, in the order in which \<^verbatim>\<open>processAudio\<close> tests it: an
  array of numbers, an object \<^verbatim>\<open>{type: 'Buffer', data: [...]}\<close>, a \<^verbatim>\<open>Buffer\<close>, another
  truthy value that \<^verbatim>\<open>Buffer.from\<close> accepts (an \<^verbatim>\<open>ArrayBuffer\<close> stands for these), or a
  falsy value. The numbers are integers here, as the client sends them
  (\<^verbatim>\<open>Array.from\<close> of an \<^verbatim>\<open>Int16Array\<close>).
\<close>

datatype audio_buffer =
    NumberArray "int list"
  | BufferJSON "int list"
  | BinaryBuffer "byte list"
  | ArrayBufferValue "byte list"
  | NoBuffer

record audio_data =
  buffer :: audio_buffer
  isFinal :: bool

text \<open>\<^verbatim>\<open>Int16Array.from(xs)\<close> converts each number modulo \<open>2\<^sup>1\<^sup>6\<close>; the \<^verbatim>\<open>.buffer\<close> of
  the typed array holds two bytes for each element, low byte first (typed arrays use
  the byte order of the platform, little-endian where Node.js runs).\<close>

definition Int16Array_from :: "int list \<Rightarrow> int16 list" where
  "Int16Array_from xs = map word_of_int xs"

definition int16_bytes :: "int16 \<Rightarrow> byte list" where
  "int16_bytes w = [ucast w, ucast (drop_bit 8 w)]"

definition Int16Array_buffer :: "int16 list \<Rightarrow> byte list" where
  "Int16Array_buffer ws = concat (map int16_bytes ws)"

text \<open>\<^verbatim>\<open>Buffer.from(array)\<close> keeps the low eight bits of each entry.\<close>

definition Buffer_from_array :: "int list \<Rightarrow> byte list" where
  "Buffer_from_array xs = map word_of_int xs"

text \<open>The \<^verbatim>\<open>if\<close> chain of \<^verbatim>\<open>processAudio\<close> that computes \<^verbatim>\<open>audioBuffer\<close>; \<open>None\<close> is
  the last branch, which logs ``Invalid audio data format'' and returns.\<close>

definition audioBuffer_of :: "audio_buffer \<Rightarrow> byte list option" where
  "audioBuffer_of b =
     (case b of
        NumberArray xs \<Rightarrow> Some (Int16Array_buffer (Int16Array_from xs))
      | BufferJSON d \<Rightarrow> Some (Buffer_from_array d)
      | BinaryBuffer bytes \<Rightarrow> Some bytes
      | ArrayBufferValue bytes \<Rightarrow> Some bytes
      | NoBuffer \<Rightarrow> None)"

text \<open>
  The three wire encodings of a sequence of 16-bit samples that the interface names:
  the samples as numbers, the bytes of their LINEAR16 form (two bytes a sample, low byte
  first) in the wrapper that \<^verbatim>\<open>Buffer.toJSON\<close> produces, and the same bytes as a
  \<^verbatim>\<open>Buffer\<close>.
\<close>

definition linear16 :: "int16 list \<Rightarrow> int list" where
  "linear16 ws = concat (map (\<lambda>w. [uint w mod 256, uint w div 256]) ws)"

definition as_number_array :: "int16 list \<Rightarrow> audio_buffer" where
  "as_number_array ws = NumberArray (map sint ws)"

definition as_buffer_json :: "int16 list \<Rightarrow> audio_buffer" where
  "as_buffer_json ws = BufferJSON (linear16 ws)"

definition as_binary_buffer :: "int16 list \<Rightarrow> audio_buffer" where
  "as_binary_buffer ws = BinaryBuffer (map word_of_int (linear16 ws))"

subsection \<open>The service\<close>

text \<open>
  \<^verbatim>\<open>recognizeStreams\<close> is a \<^verbatim>\<open>Map\<close> from socket id to a \<^verbatim>\<open>streamInfo\<close> object. The
  objects are shared: the closures created by \<^verbatim>\<open>createRecognizeStream\<close> keep the object
  they were created with, whatever the map holds later. So the objects live in a store
  (\<open>infos\<close>, a reference is an index) and the map holds references. Provider streams
  and timers are stored the same way, each with the variables its callbacks captured.
  A field that an object literal does not mention is \<open>None\<close>. The field
  \<^verbatim>\<open>lastRestart\<close> is written once and never read; it is left out.
\<close>

type_synonym handle = nat
type_synonym info_ref = nat
type_synonym timer_id = nat

record stream_info =
  stream :: "handle option"
  socket :: "socket_id option"
  restartTimer :: "timer_id option"
  languageCode :: "string option"

record recognize_stream =
  destroyed :: bool
  writable :: bool
  written :: "byte list list"
  for_socket :: socket_id
  for_language :: string
  for_info :: info_ref

record timeout =
  timeout_socket :: socket_id
  timeout_language :: string
  pending :: bool

record speech_service =
  recognizeStreams :: "socket_id \<rightharpoonup> info_ref"
  infos :: "stream_info list"
  streams :: "recognize_stream list"
  timeouts :: "timeout list"

definition new_service :: speech_service where
  "new_service = \<lparr>recognizeStreams = Map.empty, infos = [], streams = [], timeouts = []\<rparr>"

definition clearTimeout :: "timer_id \<Rightarrow> speech_service \<Rightarrow> speech_service" where
  "clearTimeout t s = s\<lparr>timeouts := (timeouts s)[t := (timeouts s ! t)\<lparr>pending := False\<rparr>]\<rparr>"

definition stream_destroy :: "handle \<Rightarrow> speech_service \<Rightarrow> speech_service" where
  "stream_destroy h s =
     s\<lparr>streams := (streams s)[h := (streams s ! h)\<lparr>destroyed := True, writable := False\<rparr>]\<rparr>"

definition stream_write :: "handle \<Rightarrow> byte list \<Rightarrow> speech_service \<Rightarrow> speech_service" where
  "stream_write h chunk s =
     s\<lparr>streams := (streams s)[h := (streams s ! h)\<lparr>written := written (streams s ! h) @ [chunk]\<rparr>]\<rparr>"

definition stream_end :: "handle \<Rightarrow> speech_service \<Rightarrow> speech_service" where
  "stream_end h s = s\<lparr>streams := (streams s)[h := (streams s ! h)\<lparr>writable := False\<rparr>]\<rparr>"

text \<open>\<^verbatim>\<open>cleanup(socketId)\<close>. The timer it clears is the one recorded in the object that
  the map holds for the socket. \<^verbatim>\<open>stream.destroy()\<close> is taken to succeed.\<close>

definition cleanup :: "socket_id \<Rightarrow> speech_service \<Rightarrow> speech_service" where
  "cleanup socketId s =
     (case recognizeStreams s socketId of
        None \<Rightarrow> s
      | Some r \<Rightarrow>
          let streamInfo = infos s ! r;
              s1 = (case restartTimer streamInfo of
                      None \<Rightarrow> s
                    | Some t \<Rightarrow> clearTimeout t s);
              s2 = (case stream streamInfo of
                      None \<Rightarrow> s1
                    | Some h \<Rightarrow>
                        if \<not> destroyed (streams s1 ! h) then stream_destroy h s1 else s1)
          in s2\<lparr>recognizeStreams := (recognizeStreams s2)(socketId := None)\<rparr>)"

text \<open>
  \<^verbatim>\<open>createRecognizeStream(socketId, languageCode)\<close>. \<open>provider_ok\<close> says whether
  \<^verbatim>\<open>client.streamingRecognize\<close> returns a stream or throws. The function stores a first
  object before the stream exists, fills in its \<^verbatim>\<open>stream\<close>, and at the end sets the map
  entry again, to a second object \<^verbatim>\<open>{stream, socket: null}\<close>; the first object stays with
  the stream's callbacks (\<open>for_info\<close>).
\<close>

definition createRecognizeStream ::
  "socket_id \<Rightarrow> string \<Rightarrow> bool \<Rightarrow> speech_service \<Rightarrow> (js_error + handle) \<times> speech_service" where
  "createRecognizeStream socketId lang provider_ok s =
     (let s1 = cleanup socketId s;
          r = length (infos s1);
          s2 = s1\<lparr>infos := infos s1 @
                      [\<lparr>stream = None, socket = None, restartTimer = None,
                        languageCode = Some lang\<rparr>],
                  recognizeStreams := (recognizeStreams s1)(socketId \<mapsto> r)\<rparr>
      in if \<not> provider_ok then (Inl OperationError, s2)
         else
           let h = length (streams s2);
               s3 = s2\<lparr>streams := streams s2 @
                           [\<lparr>destroyed = False, writable = True, written = [],
                             for_socket = socketId, for_language = lang, for_info = r\<rparr>],
                       infos := (infos s2)[r := (infos s2 ! r)\<lparr>stream := Some h\<rparr>]\<rparr>;
               r2 = length (infos s3);
               s4 = s3\<lparr>infos := infos s3 @
                           [\<lparr>stream = Some h, socket = None, restartTimer = None,
                             languageCode = None\<rparr>],
                       recognizeStreams := (recognizeStreams s3)(socketId \<mapsto> r2)\<rparr>
           in (Inr h, s4))"

text \<open>\<^verbatim>\<open>setupRestartTimer\<close> of the call that created stream \<open>h\<close>: it reads and writes
  \<^verbatim>\<open>restartTimer\<close> of the object it captured.\<close>

definition setupRestartTimer :: "handle \<Rightarrow> speech_service \<Rightarrow> speech_service" where
  "setupRestartTimer h s =
     (let st = streams s ! h;
          r = for_info st;
          s1 = (case restartTimer (infos s ! r) of
                  None \<Rightarrow> s
                | Some t \<Rightarrow> clearTimeout t s);
          t' = length (timeouts s1);
          s2 = s1\<lparr>timeouts := timeouts s1 @
                      [\<lparr>timeout_socket = for_socket st, timeout_language = for_language st,
                        pending = True\<rparr>]\<rparr>
      in s2\<lparr>infos := (infos s2)[r := (infos s2 ! r)\<lparr>restartTimer := Some t'\<rparr>]\<rparr>)"

text \<open>A provider result: the transcripts of its alternatives, and its finality (the
  stability and confidence numbers are passed through untouched and left out).\<close>

record recognition_result =
  alternatives :: "string list"
  result_isFinal :: bool

text \<open>The \<^verbatim>\<open>'data'\<close> callback of stream \<open>h\<close>; \<open>None\<close> is a message without
  \<^verbatim>\<open>results[0]\<close>. The second component is the \<^verbatim>\<open>transcript\<close> event emitted, if any,
  with the socket it goes to.\<close>

definition on_stream_data ::
  "handle \<Rightarrow> recognition_result option \<Rightarrow> speech_service \<Rightarrow>
     speech_service \<times> (socket_id \<times> string \<times> bool) list" where
  "on_stream_data h result s =
     (let s1 = setupRestartTimer h s in
      case result of
        None \<Rightarrow> (s1, [])
      | Some res \<Rightarrow>
          (case alternatives res of
             [] \<Rightarrow> (s1, [])
           | transcript # _ \<Rightarrow>
               (case recognizeStreams s1 (for_socket (streams s1 ! h)) of
                  None \<Rightarrow> (s1, [])
                | Some r \<Rightarrow>
                    (case socket (infos s1 ! r) of
                       None \<Rightarrow> (s1, [])
                     | Some sock \<Rightarrow> (s1, [(sock, transcript, result_isFinal res)])))))"

text \<open>The \<^verbatim>\<open>'error'\<close> callback of stream \<open>h\<close>: one attempt to create the stream again,
  and \<^verbatim>\<open>cleanup\<close> when that throws.\<close>

definition on_stream_error :: "handle \<Rightarrow> bool \<Rightarrow> speech_service \<Rightarrow> speech_service" where
  "on_stream_error h provider_ok s =
     (let st = streams s ! h in
      case createRecognizeStream (for_socket st) (for_language st) provider_ok s of
        (Inr _, s') \<Rightarrow> s'
      | (Inl _, s') \<Rightarrow> cleanup (for_socket st) s')"

text \<open>The callback given to \<^verbatim>\<open>setTimeout\<close>, run when timer \<open>t\<close> expires; a timer
  expires only while it is pending, and only once. Nothing catches an error of the
  creation here; the state is the one the creation left.\<close>

definition on_timeout :: "timer_id \<Rightarrow> bool \<Rightarrow> speech_service \<Rightarrow> speech_service" where
  "on_timeout t provider_ok s =
     (if t < length (timeouts s) \<and> pending (timeouts s ! t)
      then
        let tm = timeouts s ! t;
            s1 = s\<lparr>timeouts := (timeouts s)[t := tm\<lparr>pending := False\<rparr>]\<rparr>
        in snd (createRecognizeStream (timeout_socket tm) (timeout_language tm) provider_ok s1)
      else s)"

text \<open>\<^verbatim>\<open>bindSocketToStream(socketId, socket)\<close>; the socket object is named by its id.
  When the creation in the second branch throws, the rest of that branch is skipped.\<close>

definition bindSocketToStream ::
  "socket_id \<Rightarrow> socket_id \<Rightarrow> bool \<Rightarrow> speech_service \<Rightarrow> speech_service" where
  "bindSocketToStream socketId sock provider_ok s =
     (case recognizeStreams s socketId of
        Some r \<Rightarrow> s\<lparr>infos := (infos s)[r := (infos s ! r)\<lparr>socket := Some sock\<rparr>]\<rparr>
      | None \<Rightarrow>
          (case createRecognizeStream socketId ''en-US'' provider_ok s of
             (Inl _, s') \<Rightarrow> s'
           | (Inr _, s') \<Rightarrow>
               (case recognizeStreams s' socketId of
                  None \<Rightarrow> s'
                | Some r \<Rightarrow>
                    s'\<lparr>infos := (infos s')[r := (infos s' ! r)\<lparr>socket := Some sock\<rparr>]\<rparr>)))"

text \<open>\<^verbatim>\<open>processAudio(socketId, data)\<close>; the second component is what goes to
  \<^verbatim>\<open>console.error\<close>.\<close>

definition processAudio ::
  "socket_id \<Rightarrow> audio_data \<Rightarrow> speech_service \<Rightarrow> speech_service \<times> string list" where
  "processAudio socketId data s =
     (let invalid = (s, [''No valid stream found for socket '' @ socketId]) in
      case recognizeStreams s socketId of
        None \<Rightarrow> invalid
      | Some r \<Rightarrow>
          (case stream (infos s ! r) of
             None \<Rightarrow> invalid
           | Some h \<Rightarrow>
               if \<not> writable (streams s ! h) then invalid
               else
                 (case audioBuffer_of (buffer data) of
                    None \<Rightarrow> (s, [''Invalid audio data format:''])
                  | Some audioBuffer \<Rightarrow>
                      let s1 = (if length audioBuffer > 0
                                then stream_write h audioBuffer s else s);
                          s2 = (if isFinal data then stream_end h s1 else s1)
                      in (s2, []))))"

text \<open>
  What happens to the service, one event at a time: a socket connects (the server
  creates its stream and binds the socket), sends audio, disconnects (the server and the
  bound listener both call \<^verbatim>\<open>cleanup\<close>); the provider delivers a result or an error on a
  stream that exists; a timer expires.
\<close>

datatype service_event =
    Connection socket_id bool
  | AudioData socket_id audio_data
  | Disconnect socket_id
  | StreamData handle "recognition_result option"
  | StreamError handle bool
  | Timeout timer_id bool

definition on_connection :: "socket_id \<Rightarrow> bool \<Rightarrow> speech_service \<Rightarrow> speech_service" where
  "on_connection socketId provider_ok s =
     (case createRecognizeStream socketId ''en-US'' provider_ok s of
        (Inl _, s') \<Rightarrow> s'
      | (Inr _, s') \<Rightarrow> bindSocketToStream socketId socketId provider_ok s')"

fun service_step :: "service_event \<Rightarrow> speech_service \<Rightarrow> speech_service" where
  "service_step (Connection socketId ok) s = on_connection socketId ok s"
| "service_step (AudioData socketId data) s = fst (processAudio socketId data s)"
| "service_step (Disconnect socketId) s = cleanup socketId (cleanup socketId s)"
| "service_step (StreamData h result) s =
     (if h < length (streams s) then fst (on_stream_data h result s) else s)"
| "service_step (StreamError h ok) s =
     (if h < length (streams s) then on_stream_error h ok s else s)"
| "service_step (Timeout t ok) s = on_timeout t ok s"

fun service_run :: "service_event list \<Rightarrow> speech_service \<Rightarrow> speech_service" where
  "service_run [] s = s"
| "service_run (e # es) s = service_run es (service_step e s)"

text \<open>The stream handles of a socket that exist and are not destroyed, and the timers
  of a socket that are still to expire.\<close>

definition live_handles :: "socket_id \<Rightarrow> speech_service \<Rightarrow> handle list" where
  "live_handles socketId s =
     filter (\<lambda>h. \<not> destroyed (streams s ! h) \<and> for_socket (streams s ! h) = socketId)
       [0..<length (streams s)]"

definition pending_timers :: "socket_id \<Rightarrow> speech_service \<Rightarrow> timer_id list" where
  "pending_timers socketId s =
     filter (\<lambda>t. pending (timeouts s ! t) \<and> timeout_socket (timeouts s ! t) = socketId)
       [0..<length (timeouts s)]"

text \<open>
  The link between streams and registry that every operation keeps: a registry entry
  refers to an object of the store, and a stream that is not destroyed is the stream
  recorded in the registry entry of its own socket.
\<close>

definition service_ok :: "speech_service \<Rightarrow> bool" where
  "service_ok s \<longleftrightarrow>
     (\<forall>k r. recognizeStreams s k = Some r \<longrightarrow> r < length (infos s)) \<and>
     (\<forall>h. h < length (streams s) \<and> \<not> destroyed (streams s ! h) \<longrightarrow>
        (\<exists>r. recognizeStreams s (for_socket (streams s ! h)) = Some r \<and>
             stream (infos s ! r) = Some h))"

text \<open>
  Where timers are recorded: no object that the registry holds has a \<^verbatim>\<open>restartTimer\<close>,
  and no stream's callbacks captured an object that the registry holds.
\<close>

definition registry_has_no_timer :: "speech_service \<Rightarrow> bool" where
  "registry_has_no_timer s \<longleftrightarrow>
     (\<forall>k r. recognizeStreams s k = Some r \<longrightarrow>
        r < length (infos s) \<and> restartTimer (infos s ! r) = None \<and>
        (\<forall>h. h < length (streams s) \<longrightarrow> for_info (streams s ! h) \<noteq> r)) \<and>
     (\<forall>h. h < length (streams s) \<longrightarrow> for_info (streams s ! h) < length (infos s))"

section \<open>Properties of the session registry\<close>

lemma fst_joins_Cons: "fst (joins (sid # sids) io) = fst (joins sids (fst (join sid io)))"
  by (simp split: prod.splits)

lemma snd_joins_Cons:
  "snd (joins (sid # sids) io) = snd (join sid io) @ snd (joins sids (fst (join sid io)))"
  by (simp split: prod.splits)

lemma join_full:
  "2 \<le> getRoomSize DEFAULT_ROOM io \<Longrightarrow> join sid io = (io, [(sid, RoomFull)])"
  by (simp add: join_def)

lemma getRoomSize_socket_join:
  "getRoomSize r (socket_join sid r io) =
     (case rooms io r of None \<Rightarrow> 1
      | Some room \<Rightarrow> if sid \<in> set room then length room else Suc (length room))"
  by (simp add: getRoomSize_def socket_join_def split: option.splits)

lemma getRoomSize_join_le:
  "getRoomSize DEFAULT_ROOM io \<le> 2 \<Longrightarrow> getRoomSize DEFAULT_ROOM (fst (join sid io)) \<le> 2"
  by (auto simp: join_def Let_def getRoomSize_socket_join split: option.splits) (auto simp: getRoomSize_def)

lemma getRoomSize_joins_le:
  "getRoomSize DEFAULT_ROOM io \<le> 2 \<Longrightarrow> getRoomSize DEFAULT_ROOM (fst (joins sids io)) \<le> 2"
proof (induction sids arbitrary: io)
  case Nil
  then show ?case by simp
next
  case (Cons sid sids)
  have "getRoomSize DEFAULT_ROOM (fst (join sid io)) \<le> 2"
    using Cons.prems by (rule getRoomSize_join_le)
  then have "getRoomSize DEFAULT_ROOM (fst (joins sids (fst (join sid io)))) \<le> 2"
    by (rule Cons.IH)
  then show ?case by (simp only: fst_joins_Cons)
qed

lemma join_pair:
  "rooms io DEFAULT_ROOM = Some [a] \<Longrightarrow> sid \<noteq> a \<Longrightarrow>
   join sid io = (io\<lparr>rooms := (rooms io)(DEFAULT_ROOM \<mapsto> [a, sid])\<rparr>,
      [(sid, Joined DEFAULT_ROOM 2), (a, Ready), (sid, Ready), (sid, Initiate)])"
  by (simp add: join_def getRoomSize_def socket_join_def io_to_def)

lemma join_again_sole:
  "rooms io DEFAULT_ROOM = Some [a] \<Longrightarrow> join a io = (io, [(a, Joined DEFAULT_ROOM 1)])"
  by (simp add: join_def getRoomSize_def socket_join_def io_to_def map_upd_triv)

lemma join_first:
  "rooms io DEFAULT_ROOM = None \<or> rooms io DEFAULT_ROOM = Some [] \<Longrightarrow>
   join sid io = (io\<lparr>rooms := (rooms io)(DEFAULT_ROOM \<mapsto> [sid])\<rparr>, [(sid, Joined DEFAULT_ROOM 1)])"
  by (auto simp add: join_def getRoomSize_def socket_join_def io_to_def)

lemma joins_full:
  "2 \<le> getRoomSize DEFAULT_ROOM io \<Longrightarrow> joins sids io = (io, map (\<lambda>s. (s, RoomFull)) sids)"
  by (induction sids) (simp_all add: join_full)

lemma initiate_only_joiner:
  "(r, Initiate) \<in> set (snd (join sid io)) \<Longrightarrow>
     r = sid \<and> getRoomSize DEFAULT_ROOM io = 1 \<and> getRoomSize DEFAULT_ROOM (fst (join sid io)) = 2"
  by (auto simp: join_def Let_def getRoomSize_socket_join split: if_splits option.splits)
     (auto simp: getRoomSize_def)

lemma initiate_recipients_sole:
  "rooms io DEFAULT_ROOM = Some [a] \<Longrightarrow>
   initiate_recipients (snd (joins sids io)) =
     (case rooms (fst (joins sids io)) DEFAULT_ROOM of Some [x, y] \<Rightarrow> [y] | _ \<Rightarrow> [])"
proof (induction sids)
  case Nil
  then show ?case by (simp add: initiate_recipients_def)
next
  case (Cons sid sids)
  show ?case
  proof (cases "sid = a")
    case True
    with Cons show ?thesis
      by (simp add: fst_joins_Cons snd_joins_Cons join_again_sole initiate_recipients_def
            del: joins.simps)
  next
    case False
    let ?io2 = "io\<lparr>rooms := (rooms io)(DEFAULT_ROOM \<mapsto> [a, sid])\<rparr>"
    have full: "2 \<le> getRoomSize DEFAULT_ROOM ?io2"
      by (simp add: getRoomSize_def)
    show ?thesis
      using False Cons.prems
      by (simp add: fst_joins_Cons snd_joins_Cons join_pair joins_full [OF full]
            initiate_recipients_def comp_def del: joins.simps)
  qed
qed

lemma initiate_recipients_initial:
  "initiate_recipients (snd (joins sids initial_io)) =
     (case rooms (fst (joins sids initial_io)) DEFAULT_ROOM of Some [x, y] \<Rightarrow> [y] | _ \<Rightarrow> [])"
proof (cases sids)
  case Nil
  then show ?thesis by (simp add: initiate_recipients_def initial_io_def)
next
  case (Cons sid rest)
  have j: "join sid initial_io =
      (initial_io\<lparr>rooms := (rooms initial_io)(DEFAULT_ROOM \<mapsto> [sid])\<rparr>, [(sid, Joined DEFAULT_ROOM 1)])"
    by (rule join_first) (simp add: initial_io_def)
  let ?io1 = "initial_io\<lparr>rooms := (rooms initial_io)(DEFAULT_ROOM \<mapsto> [sid])\<rparr>"
  have "rooms ?io1 DEFAULT_ROOM = Some [sid]" by simp
  from initiate_recipients_sole [OF this, of rest] show ?thesis
    unfolding Cons
    by (simp add: fst_joins_Cons snd_joins_Cons j initiate_recipients_def del: joins.simps)
qed


text \<open>The definitions to unfold when a handler is evaluated on a concrete state.\<close>

lemmas registry_defs =
  join_def getRoomSize_def socket_join_def io_to_def initial_io_def Let_def

text \<open>
  Claim C4. Whatever the sequence of join requests, the default room never has more than
  two members (from the empty server, and from any state with at most two members), and
  a join request that finds two or more members is answered with \<^verbatim>\<open>room_full\<close> to the
  requesting socket only and leaves the membership as it was.
\<close>

theorem room_never_exceeds_two:
  "getRoomSize DEFAULT_ROOM (fst (joins sids initial_io)) \<le> 2 \<and>
   (\<forall>io. getRoomSize DEFAULT_ROOM io \<le> 2 \<longrightarrow>
      getRoomSize DEFAULT_ROOM (fst (joins sids io)) \<le> 2) \<and>
   (\<forall>io sid. 2 \<le> getRoomSize DEFAULT_ROOM io \<longrightarrow> join sid io = (io, [(sid, RoomFull)]))"
proof (intro conjI allI impI)
  have "getRoomSize DEFAULT_ROOM initial_io \<le> 2"
    by (simp add: getRoomSize_def initial_io_def)
  then show "getRoomSize DEFAULT_ROOM (fst (joins sids initial_io)) \<le> 2"
    by (rule getRoomSize_joins_le)
next
  fix io
  assume "getRoomSize DEFAULT_ROOM io \<le> 2"
  then show "getRoomSize DEFAULT_ROOM (fst (joins sids io)) \<le> 2"
    by (rule getRoomSize_joins_le)
next
  fix io sid
  assume "2 \<le> getRoomSize DEFAULT_ROOM io"
  then show "join sid io = (io, [(sid, RoomFull)])"
    by (rule join_full)
qed

text \<open>Three sockets join in turn: the third is turned away.\<close>

theorem room_never_exceeds_two_witness:
  "getRoomSize DEFAULT_ROOM (fst (joins [''a'', ''b'', ''c''] initial_io)) \<le> 2 \<and>
   2 \<le> getRoomSize DEFAULT_ROOM (fst (joins [''a'', ''b''] initial_io)) \<and>
   join ''c'' (fst (joins [''a'', ''b''] initial_io)) =
     (fst (joins [''a'', ''b''] initial_io), [(''c'', RoomFull)])"
proof -
  have full: "2 \<le> getRoomSize DEFAULT_ROOM (fst (joins [''a'', ''b''] initial_io))"
    by (simp add: registry_defs)
  from room_never_exceeds_two [of "[''a'', ''b'', ''c'']"] full show ?thesis
    by blast
qed

text \<open>
  Claim C5. When a socket joins a room whose only member is another socket, the handler
  sends \<^verbatim>\<open>joined\<close> with two peers to the joiner, \<^verbatim>\<open>ready\<close> to both members and
  \<^verbatim>\<open>initiate\<close> to the joiner alone. No join sends \<^verbatim>\<open>initiate\<close> to anyone but the
  joining socket, and only when it takes the room from one member to two. Over a whole
  sequence of joins from the empty server, \<^verbatim>\<open>initiate\<close> is sent exactly once if the
  room fills, to its second member, and never otherwise.
\<close>

theorem initiate_goes_to_second_joiner:
  "(rooms io DEFAULT_ROOM = Some [a] \<and> sid \<noteq> a \<longrightarrow>
      join sid io =
        (io\<lparr>rooms := (rooms io)(DEFAULT_ROOM \<mapsto> [a, sid])\<rparr>,
         [(sid, Joined DEFAULT_ROOM 2), (a, Ready), (sid, Ready), (sid, Initiate)])) \<and>
   ((r, Initiate) \<in> set (snd (join sid io)) \<longrightarrow>
      r = sid \<and> getRoomSize DEFAULT_ROOM io = 1 \<and>
      getRoomSize DEFAULT_ROOM (fst (join sid io)) = 2) \<and>
   initiate_recipients (snd (joins sids initial_io)) =
     (case rooms (fst (joins sids initial_io)) DEFAULT_ROOM of
        Some [first, second] \<Rightarrow> [second]
      | _ \<Rightarrow> [])"
  using join_pair [of io a sid] initiate_only_joiner [of r sid io]
    initiate_recipients_initial [of sids]
  by blast

text \<open>Socket a joins twice, then b, c and a again: only b is told to initiate.\<close>

theorem initiate_goes_to_second_joiner_witness:
  "join ''b'' (fst (joins [''a''] initial_io)) =
     ((fst (joins [''a''] initial_io))
         \<lparr>rooms := (rooms (fst (joins [''a''] initial_io)))(DEFAULT_ROOM \<mapsto> [''a'', ''b''])\<rparr>,
      [(''b'', Joined DEFAULT_ROOM 2), (''a'', Ready), (''b'', Ready), (''b'', Initiate)]) \<and>
   initiate_recipients (snd (joins [''a'', ''a'', ''b'', ''c'', ''a''] initial_io)) = [''b'']"
proof -
  have sole: "rooms (fst (joins [''a''] initial_io)) DEFAULT_ROOM = Some [''a'']"
    by (simp add: registry_defs)
  have final: "rooms (fst (joins [''a'', ''a'', ''b'', ''c'', ''a''] initial_io)) DEFAULT_ROOM
      = Some [''a'', ''b'']"
    by (simp add: registry_defs)
  have neq: "''b'' \<noteq> ''a''" by simp
  from initiate_goes_to_second_joiner
    [of "fst (joins [''a''] initial_io)" "''a''" "''b''" "''b''"
        "[''a'', ''a'', ''b'', ''c'', ''a'']"]
    sole neq
  show ?thesis by (simp only: final option.case list.case) blast
qed

text \<open>
  Claim C10. The capacity check counts the requesting socket itself: a member of the
  full room that sends \<^verbatim>\<open>join\<close> again receives \<^verbatim>\<open>room_full\<close> and the membership stays
  as it was. The sole member of a room that joins again receives \<^verbatim>\<open>joined\<close> with one
  peer again; membership does not change and neither \<^verbatim>\<open>ready\<close> nor \<^verbatim>\<open>initiate\<close>
  is sent.
\<close>

theorem member_join_again:
  "(rooms io DEFAULT_ROOM = Some [a, b] \<and> (sid = a \<or> sid = b) \<longrightarrow>
      join sid io = (io, [(sid, RoomFull)])) \<and>
   (rooms io DEFAULT_ROOM = Some [a] \<longrightarrow>
      join a io = (io, [(a, Joined DEFAULT_ROOM 1)]))"
  by (auto simp: join_again_sole intro!: join_full simp: getRoomSize_def)

text \<open>Both cases on the states reached by the joins of a and b, and of a alone.\<close>

theorem member_join_again_witness:
  "join ''a'' (fst (joins [''a'', ''b''] initial_io)) =
     (fst (joins [''a'', ''b''] initial_io), [(''a'', RoomFull)]) \<and>
   join ''a'' (fst (joins [''a''] initial_io)) =
     (fst (joins [''a''] initial_io), [(''a'', Joined DEFAULT_ROOM 1)])"
proof -
  have two: "rooms (fst (joins [''a'', ''b''] initial_io)) DEFAULT_ROOM = Some [''a'', ''b'']"
    by (simp add: registry_defs)
  have one: "rooms (fst (joins [''a''] initial_io)) DEFAULT_ROOM = Some [''a'']"
    by (simp add: registry_defs)
  from member_join_again [of "fst (joins [''a'', ''b''] initial_io)" "''a''" "''b''" "''a''"]
    member_join_again [of "fst (joins [''a''] initial_io)" "''a''" "''b''" "''a''"]
    two one
  show ?thesis by blast
qed

subsection \<open>The relay\<close>

text \<open>
  Claim C8 says that the relay drops a message whose required field is absent. It does
  not: an offer without \<^verbatim>\<open>sdp\<close>, sent by a in the room of a and b, is delivered to b.
\<close>

theorem relay_forwards_malformed_offer:
  "relay_offer ''a'' \<lparr>sdp = None, candidate = None\<rparr> (fst (joins [''a'', ''b''] initial_io)) =
     [(''b'', SignalOffer \<lparr>sdp = None, candidate = None\<rparr>)]"
  by (simp add: relay_offer_def socket_to_def registry_defs)

text \<open>
  Claim C8, amended. The relay forwards every offer, answer and ice-candidate message
  as it is to every member of the default room other than the sender, whether or not
  the required field is present: the server does no shape validation. A message whose
  required field is absent is dropped by the receiving client, whose handler returns
  without any effect.
\<close>

theorem relay_forwards_without_validation:
  "set (relay_offer sid pl io) =
     (\<lambda>r. (r, SignalOffer pl)) ` (set (io_to DEFAULT_ROOM io) - {sid}) \<and>
   set (relay_answer sid pl io) =
     (\<lambda>r. (r, SignalAnswer pl)) ` (set (io_to DEFAULT_ROOM io) - {sid}) \<and>
   set (relay_ice_candidate sid pl io) =
     (\<lambda>r. (r, SignalIceCandidate pl)) ` (set (io_to DEFAULT_ROOM io) - {sid}) \<and>
   (sdp pl = None \<longrightarrow> on_signal_offer api pl c = (c, [])) \<and>
   (sdp pl = None \<longrightarrow> on_signal_answer api pl c = (c, [])) \<and>
   (sdp pl = None \<longrightarrow> on_signal_answer_tandem api pl c = (c, [])) \<and>
   (candidate pl = None \<longrightarrow> on_signal_ice_candidate api pl c = (c, []))"
  by (auto simp: relay_offer_def relay_answer_def relay_ice_candidate_def socket_to_def
        on_signal_offer_def on_signal_answer_def on_signal_answer_tandem_def
        on_signal_ice_candidate_def split: option.splits)

text \<open>An answer without \<^verbatim>\<open>sdp\<close> from b reaches a, whose handler ignores it.\<close>

theorem relay_forwards_without_validation_witness:
  "set (relay_answer ''b'' \<lparr>sdp = None, candidate = None\<rparr> (fst (joins [''a'', ''b''] initial_io))) =
     {(''a'', SignalAnswer \<lparr>sdp = None, candidate = None\<rparr>)} \<and>
   on_signal_answer ref_api \<lparr>sdp = None, candidate = None\<rparr> (new_client new_peer_connection) =
     (new_client new_peer_connection, [])"
proof -
  have mem: "io_to DEFAULT_ROOM (fst (joins [''a'', ''b''] initial_io)) = [''a'', ''b'']"
    by (simp add: registry_defs)
  have "set [''a'', ''b''] - {''b''} = {''a''}" by auto
  with relay_forwards_without_validation
    [of "''b''" "\<lparr>sdp = None, candidate = None\<rparr>" "fst (joins [''a'', ''b''] initial_io)"
        ref_api "new_client new_peer_connection"] mem
  show ?thesis by simp
qed

section \<open>Properties of the negotiation handlers\<close>

text \<open>The definitions to unfold when the reference connection and the handlers are
  evaluated.\<close>

lemmas ref_defs =
  ref_api_def ref_createOffer_def ref_createAnswer_def ref_setLocalDescription_def
  ref_setRemoteDescription_def ref_addIceCandidate_def new_peer_connection_def

lemmas client_defs =
  on_signal_offer_def on_signal_answer_def on_signal_answer_tandem_def
  on_signal_ice_candidate_def makeOffer_def on_initiate_def offerCollision_def
  new_client_def Let_def

text \<open>The reference connection has the four properties.\<close>

lemma ref_api_conformant: "w3c_conformant ref_api"
  by (auto simp: w3c_conformant_def ref_defs split: sdp_type.splits if_splits)

lemma conformant_createAnswer:
  "w3c_conformant api \<Longrightarrow> createAnswer api p = Inr a \<Longrightarrow> dtype a = AnswerT"
  unfolding w3c_conformant_def by blast

lemma conformant_local_answer:
  "w3c_conformant api \<Longrightarrow> dtype d = AnswerT \<Longrightarrow> setLocalDescription api d p = Inr p' \<Longrightarrow>
   signalingState api p' = Stable"
  unfolding w3c_conformant_def by blast

lemma conformant_remote_answer:
  "w3c_conformant api \<Longrightarrow> dtype d = AnswerT \<Longrightarrow> signalingState api p \<noteq> HaveLocalOffer \<Longrightarrow>
   \<exists>e. setRemoteDescription api d p = Inl e"
  unfolding w3c_conformant_def isl_def by blast

lemma conformant_candidate:
  "w3c_conformant api \<Longrightarrow> remoteDescription api p = None \<Longrightarrow>
   \<exists>e. addIceCandidate api cand p = Inl e"
  unfolding w3c_conformant_def isl_def by blast

subsection \<open>Offers\<close>

text \<open>
  Claim C1 says that a polite peer honours an incoming offer even under collision. The
  handler reads no role, so every peer does the same; a peer with an offer of its own
  outstanding (it was told to initiate and has had no answer) that receives an offer
  discards it: nothing is applied, no answer is sent, the signalling state stays
  \<^verbatim>\<open>have-local-offer\<close>, and only \<open>ignoreOffer\<close> is set. Such a peer is the polite
  one as soon as its former partner has left and another peer has joined after it.
\<close>

theorem colliding_offer_discarded_whatever_the_role:
  "on_signal_offer ref_api
     \<lparr>sdp = Some \<lparr>dtype = OfferT, sdp_text = ''remote-offer''\<rparr>, candidate = None\<rparr>
     (fst (on_initiate ref_api (new_client new_peer_connection))) =
   (\<lparr>pc = Some \<lparr>pc_signalingState = HaveLocalOffer,
                 pc_localDescription = Some \<lparr>dtype = OfferT, sdp_text = ''local-offer''\<rparr>,
                 pc_remoteDescription = None,
                 pc_candidates = []\<rparr>,
     makingOffer = False, ignoreOffer = True, isSettingRemoteAnswerPending = False\<rparr>,
    [])"
  by (simp add: client_defs ref_defs)

text \<open>
  Claim C1, amended. On an offer that carries \<^verbatim>\<open>sdp\<close>, with collision meaning
  \<open>makingOffer\<close> or a signalling state other than stable: under collision the offer is
  discarded by every peer, whatever its role; nothing is applied or sent and the only
  change is that \<open>ignoreOffer\<close> is set. Without collision the remote description is
  applied, an answer is created, set as the local description and sent, \<open>ignoreOffer\<close>
  is cleared, and the peer is back in stable (each of the three browser calls
  succeeding, the browser behaving as the WebRTC API says).
\<close>

theorem offer_handling:
  "(sdp pl = Some offer \<and> pc c = Some p \<and>
    (makingOffer c \<or> signalingState api p \<noteq> Stable) \<longrightarrow>
      on_signal_offer api pl c = (c\<lparr>ignoreOffer := True\<rparr>, [])) \<and>
   (sdp pl = Some offer \<and> \<not> makingOffer c \<and> pc c = Some p \<and> signalingState api p = Stable \<and>
    setRemoteDescription api offer p = Inr p1 \<and> createAnswer api p1 = Inr answer \<and>
    setLocalDescription api answer p1 = Inr p2 \<longrightarrow>
      on_signal_offer api pl c =
        (c\<lparr>ignoreOffer := False, pc := Some p2\<rparr>,
         [Emit (SignalAnswer \<lparr>sdp = localDescription api p2, candidate = None\<rparr>)]) \<and>
      (w3c_conformant api \<longrightarrow> signalingState api p2 = Stable))"
  by (auto simp: on_signal_offer_def offerCollision_def Let_def
        dest: conformant_createAnswer conformant_local_answer)

text \<open>Both cases on the reference connection: a peer in the middle of making an offer,
  and a fresh peer.\<close>

theorem offer_handling_witness:
  "on_signal_offer ref_api
     \<lparr>sdp = Some \<lparr>dtype = OfferT, sdp_text = ''remote-offer''\<rparr>, candidate = None\<rparr>
     ((new_client new_peer_connection)\<lparr>makingOffer := True\<rparr>) =
     ((new_client new_peer_connection)\<lparr>makingOffer := True, ignoreOffer := True\<rparr>, []) \<and>
   on_signal_offer ref_api
     \<lparr>sdp = Some \<lparr>dtype = OfferT, sdp_text = ''remote-offer''\<rparr>, candidate = None\<rparr>
     (new_client new_peer_connection) =
     (\<lparr>pc = Some \<lparr>pc_signalingState = Stable,
                   pc_localDescription = Some \<lparr>dtype = AnswerT, sdp_text = ''local-answer''\<rparr>,
                   pc_remoteDescription = Some \<lparr>dtype = OfferT, sdp_text = ''remote-offer''\<rparr>,
                   pc_candidates = []\<rparr>,
       makingOffer = False, ignoreOffer = False, isSettingRemoteAnswerPending = False\<rparr>,
      [Emit (SignalAnswer
         \<lparr>sdp = Some \<lparr>dtype = AnswerT, sdp_text = ''local-answer''\<rparr>, candidate = None\<rparr>)])"
proof -
  let ?offer = "\<lparr>dtype = OfferT, sdp_text = ''remote-offer''\<rparr>"
  let ?pl = "\<lparr>sdp = Some ?offer, candidate = None\<rparr>"
  let ?p1 = "new_peer_connection\<lparr>pc_signalingState := HaveRemoteOffer,
               pc_remoteDescription := Some ?offer\<rparr>"
  let ?answer = "\<lparr>dtype = AnswerT, sdp_text = ''local-answer''\<rparr>"
  let ?p2 = "?p1\<lparr>pc_signalingState := Stable, pc_localDescription := Some ?answer\<rparr>"
  have s1: "setRemoteDescription ref_api ?offer new_peer_connection = Inr ?p1"
    by (simp add: ref_defs)
  have s2: "createAnswer ref_api ?p1 = Inr ?answer"
    by (simp add: ref_defs)
  have s3: "setLocalDescription ref_api ?answer ?p1 = Inr ?p2"
    by (simp add: ref_defs)
  have st: "signalingState ref_api new_peer_connection = Stable"
    by (simp add: ref_defs)
  from offer_handling
      [of ?pl ?offer "(new_client new_peer_connection)\<lparr>makingOffer := True\<rparr>"
          new_peer_connection ref_api ?p1 ?answer ?p2]
  have a: "on_signal_offer ref_api ?pl ((new_client new_peer_connection)\<lparr>makingOffer := True\<rparr>) =
     ((new_client new_peer_connection)\<lparr>makingOffer := True, ignoreOffer := True\<rparr>, [])"
    by (simp add: new_client_def)
  from offer_handling
      [of ?pl ?offer "new_client new_peer_connection"
          new_peer_connection ref_api ?p1 ?answer ?p2] s1 s2 s3 st
  have b: "on_signal_offer ref_api ?pl (new_client new_peer_connection) =
        ((new_client new_peer_connection)\<lparr>ignoreOffer := False, pc := Some ?p2\<rparr>,
         [Emit (SignalAnswer \<lparr>sdp = localDescription ref_api ?p2, candidate = None\<rparr>)])"
    by (simp add: new_client_def)
  show ?thesis
    unfolding a b by (simp add: new_client_def ref_defs)
qed

subsection \<open>ICE candidates\<close>

text \<open>
  Claim C6 says that a candidate arriving before the remote description is buffered and
  applied, in order, once the description is set. The handler has no buffer: a fresh
  peer that receives a candidate and then an offer ends with the remote description
  applied and no candidate added.
\<close>

theorem early_candidate_is_lost:
  "fst (on_signal_offer ref_api
          \<lparr>sdp = Some \<lparr>dtype = OfferT, sdp_text = ''remote-offer''\<rparr>, candidate = None\<rparr>
          (fst (on_signal_ice_candidate ref_api
                  \<lparr>sdp = None, candidate = Some ''candidate-1''\<rparr>
                  (new_client new_peer_connection)))) =
   \<lparr>pc = Some \<lparr>pc_signalingState = Stable,
                 pc_localDescription = Some \<lparr>dtype = AnswerT, sdp_text = ''local-answer''\<rparr>,
                 pc_remoteDescription = Some \<lparr>dtype = OfferT, sdp_text = ''remote-offer''\<rparr>,
                 pc_candidates = []\<rparr>,
     makingOffer = False, ignoreOffer = False, isSettingRemoteAnswerPending = False\<rparr>"
  by (simp add: client_defs ref_defs)

text \<open>
  Claim C6, amended. An incoming candidate is never buffered: the handler passes it to
  \<^verbatim>\<open>addIceCandidate\<close> at once and keeps the connection the call returns. While the peer
  has no remote description the browser rejects the call; the handler catches and logs
  the error and leaves the client exactly as it was, so the candidate is dropped and is
  not applied later. Without a connection or without a candidate the handler does
  nothing. In no case does the handler fail.
\<close>

theorem candidate_applied_at_once:
  "(pc c = Some p \<and> candidate pl = Some cand \<and> addIceCandidate api cand p = Inr p1 \<longrightarrow>
      on_signal_ice_candidate api pl c = (c\<lparr>pc := Some p1\<rparr>, [])) \<and>
   (pc c = Some p \<and> candidate pl = Some cand \<and> w3c_conformant api \<and>
    remoteDescription api p = None \<longrightarrow>
      on_signal_ice_candidate api pl c =
        (c, [ConsoleError ''Error adding remote ICE candidate''])) \<and>
   (pc c = None \<or> candidate pl = None \<longrightarrow> on_signal_ice_candidate api pl c = (c, []))"
  by (auto simp: on_signal_ice_candidate_def split: option.splits
        dest!: conformant_candidate [where cand = cand])

text \<open>A candidate for a fresh connection is dropped with a logged error; the same
  candidate for a connection that has a remote description is added.\<close>

theorem candidate_applied_at_once_witness:
  "on_signal_ice_candidate ref_api \<lparr>sdp = None, candidate = Some ''candidate-1''\<rparr>
     (new_client new_peer_connection) =
     (new_client new_peer_connection, [ConsoleError ''Error adding remote ICE candidate'']) \<and>
   on_signal_ice_candidate ref_api \<lparr>sdp = None, candidate = Some ''candidate-1''\<rparr>
     (new_client (new_peer_connection
        \<lparr>pc_remoteDescription := Some \<lparr>dtype = OfferT, sdp_text = ''remote-offer''\<rparr>\<rparr>)) =
     (new_client (new_peer_connection
        \<lparr>pc_remoteDescription := Some \<lparr>dtype = OfferT, sdp_text = ''remote-offer''\<rparr>,
         pc_candidates := [''candidate-1'']\<rparr>), [])"
proof -
  let ?pl = "\<lparr>sdp = None, candidate = Some ''candidate-1''\<rparr>"
  let ?q = "new_peer_connection
        \<lparr>pc_remoteDescription := Some \<lparr>dtype = OfferT, sdp_text = ''remote-offer''\<rparr>\<rparr>"
  have none: "remoteDescription ref_api new_peer_connection = None"
    by (simp add: ref_defs)
  have ok: "addIceCandidate ref_api ''candidate-1'' ?q =
      Inr (?q\<lparr>pc_candidates := [''candidate-1'']\<rparr>)"
    by (simp add: ref_defs)
  from candidate_applied_at_once
    [of "new_client new_peer_connection" new_peer_connection ?pl "''candidate-1''" ref_api]
    none ref_api_conformant
  have a: "on_signal_ice_candidate ref_api ?pl (new_client new_peer_connection) =
     (new_client new_peer_connection, [ConsoleError ''Error adding remote ICE candidate''])"
    by (simp add: new_client_def)
  from candidate_applied_at_once
    [of "new_client ?q" ?q ?pl "''candidate-1''" ref_api "?q\<lparr>pc_candidates := [''candidate-1'']\<rparr>"]
    ok
  have b: "on_signal_ice_candidate ref_api ?pl (new_client ?q) =
     ((new_client ?q)\<lparr>pc := Some (?q\<lparr>pc_candidates := [''candidate-1'']\<rparr>)\<rparr>, [])"
    by (simp add: new_client_def)
  show ?thesis unfolding a b by (simp add: new_client_def)
qed

subsection \<open>Answers\<close>

text \<open>
  Claim C7. An answer that arrives while the signalling state is not
  \<^verbatim>\<open>have-local-offer\<close> (or before the connection exists) is ignored: the browser rejects it, the handler catches and logs
  the error, the connection and the negotiation flags are as before (the pending flag
  of chat-vid's script is cleared by \<^verbatim>\<open>finally\<close>), and nothing is sent. The handler does
  not test the state itself; it relies on the browser to reject the answer.
\<close>

theorem unsolicited_answer_ignored:
  "w3c_conformant api \<Longrightarrow> sdp pl = Some answer \<Longrightarrow> dtype answer = AnswerT \<Longrightarrow>
   (\<And>p. pc c = Some p \<Longrightarrow> signalingState api p \<noteq> HaveLocalOffer) \<Longrightarrow>
     on_signal_answer api pl c =
       (c\<lparr>isSettingRemoteAnswerPending := False\<rparr>,
        [ConsoleError ''Error applying remote answer'']) \<and>
     on_signal_answer_tandem api pl c =
       (c, [ConsoleError ''Error applying remote answer:''])"
  by (cases "pc c")
     (auto simp: on_signal_answer_def on_signal_answer_tandem_def Let_def
        dest!: conformant_remote_answer)

text \<open>A fresh peer, in stable, receives an answer.\<close>

theorem unsolicited_answer_ignored_witness:
  "on_signal_answer ref_api
     \<lparr>sdp = Some \<lparr>dtype = AnswerT, sdp_text = ''remote-answer''\<rparr>, candidate = None\<rparr>
     (new_client new_peer_connection) =
     (new_client new_peer_connection, [ConsoleError ''Error applying remote answer'']) \<and>
   on_signal_answer_tandem ref_api
     \<lparr>sdp = Some \<lparr>dtype = AnswerT, sdp_text = ''remote-answer''\<rparr>, candidate = None\<rparr>
     (new_client new_peer_connection) =
     (new_client new_peer_connection, [ConsoleError ''Error applying remote answer:''])"
proof -
  let ?answer = "\<lparr>dtype = AnswerT, sdp_text = ''remote-answer''\<rparr>"
  have st: "signalingState ref_api p \<noteq> HaveLocalOffer"
    if "pc (new_client new_peer_connection) = Some p" for p
    using that by (auto simp: ref_defs new_client_def)
  have same: "(new_client new_peer_connection)\<lparr>isSettingRemoteAnswerPending := False\<rparr> =
      new_client new_peer_connection"
    by (simp add: new_client_def)
  from unsolicited_answer_ignored
    [OF ref_api_conformant _ _ st, of "\<lparr>sdp = Some ?answer, candidate = None\<rparr>" ?answer]
  show ?thesis
    by (simp add: same)
qed

section \<open>Properties of the transcription stream manager\<close>

text \<open>The definitions to unfold when the service is run on a concrete list of events.\<close>

lemmas service_defs =
  new_service_def clearTimeout_def stream_destroy_def stream_write_def stream_end_def
  cleanup_def createRecognizeStream_def setupRestartTimer_def on_stream_data_def
  on_stream_error_def on_timeout_def bindSocketToStream_def processAudio_def
  on_connection_def live_handles_def pending_timers_def Let_def

subsection \<open>Audio normalisation\<close>

lemma low_byte: "(word_of_int (uint (w :: int16) mod 256) :: byte) = ucast w"
proof -
  have "take_bit 8 (uint w mod 256) = take_bit 8 (uint w)"
    by (simp add: take_bit_eq_mod)
  then have "(word_of_int (uint w mod 256) :: byte) = word_of_int (uint w)"
    using word_of_int_eq_iff [where ?'a = 8, of "uint w mod 256" "uint w"] by simp
  also have "\<dots> = ucast w"
    by (rule ucast_eq [symmetric])
  finally show ?thesis .
qed

lemma high_byte: "(word_of_int (uint (w :: int16) div 256) :: byte) = ucast (drop_bit 8 w)"
proof -
  have "uint (drop_bit 8 w) = uint w div 256"
    by (simp add: drop_bit_eq_div uint_div_distrib)
  then have "(word_of_int (uint w div 256) :: byte) = word_of_int (uint (drop_bit 8 w))"
    by simp
  also have "\<dots> = ucast (drop_bit 8 w)"
    by (rule ucast_eq [symmetric])
  finally show ?thesis .
qed

lemma sint_roundtrip: "(word_of_int (sint (w :: int16)) :: int16) = w"
  by simp

lemma Buffer_from_linear16: "Buffer_from_array (linear16 ws) = Int16Array_buffer ws"
  by (induction ws)
     (simp_all add: Buffer_from_array_def linear16_def Int16Array_buffer_def int16_bytes_def
        low_byte high_byte)

lemma Int16Array_from_sint: "Int16Array_from (map sint ws) = ws"
  by (simp add: Int16Array_from_def comp_def)

lemma processAudio_depends_on_bytes:
  "audioBuffer_of (buffer d) = audioBuffer_of (buffer d') \<Longrightarrow> isFinal d = isFinal d' \<Longrightarrow>
   processAudio socketId d s = processAudio socketId d' s"
  by (simp add: processAudio_def Let_def split: option.splits)

text \<open>
  Claim C9. For every sequence of 16-bit samples, the numeric array, the byte-array
  wrapper and the binary buffer that carry it are turned into the same bytes (two a
  sample, low byte first), and \<^verbatim>\<open>processAudio\<close> does the same to the service whichever of
  the three it is given; when the socket's stream is writable and there is at least one
  sample, those bytes are what it writes to the stream.
\<close>

theorem audio_encodings_agree:
  "audioBuffer_of (as_number_array ws) = Some (Int16Array_buffer ws) \<and>
   audioBuffer_of (as_buffer_json ws) = Some (Int16Array_buffer ws) \<and>
   audioBuffer_of (as_binary_buffer ws) = Some (Int16Array_buffer ws) \<and>
   processAudio socketId \<lparr>buffer = as_buffer_json ws, isFinal = fin\<rparr> s =
     processAudio socketId \<lparr>buffer = as_number_array ws, isFinal = fin\<rparr> s \<and>
   processAudio socketId \<lparr>buffer = as_binary_buffer ws, isFinal = fin\<rparr> s =
     processAudio socketId \<lparr>buffer = as_number_array ws, isFinal = fin\<rparr> s \<and>
   (recognizeStreams s socketId = Some r \<and> stream (infos s ! r) = Some h \<and>
    h < length (streams s) \<and> writable (streams s ! h) \<and> ws \<noteq> [] \<longrightarrow>
      written (streams (fst (processAudio socketId
                 \<lparr>buffer = as_number_array ws, isFinal = fin\<rparr> s)) ! h) =
        written (streams s ! h) @ [Int16Array_buffer ws])"
proof -
  have a: "audioBuffer_of (as_number_array ws) = Some (Int16Array_buffer ws)"
    by (simp add: audioBuffer_of_def as_number_array_def Int16Array_from_sint)
  have b: "audioBuffer_of (as_buffer_json ws) = Some (Int16Array_buffer ws)"
    by (simp add: audioBuffer_of_def as_buffer_json_def Buffer_from_linear16)
  have c: "audioBuffer_of (as_binary_buffer ws) = Some (Int16Array_buffer ws)"
    using Buffer_from_linear16 [of ws]
    by (simp add: audioBuffer_of_def as_binary_buffer_def Buffer_from_array_def)
  have len: "ws \<noteq> [] \<Longrightarrow> 0 < length (Int16Array_buffer ws)"
    by (cases ws) (simp_all add: Int16Array_buffer_def int16_bytes_def)
  have d: "written (streams (fst (processAudio socketId
                 \<lparr>buffer = as_number_array ws, isFinal = fin\<rparr> s)) ! h) =
        written (streams s ! h) @ [Int16Array_buffer ws]"
    if "recognizeStreams s socketId = Some r" "stream (infos s ! r) = Some h"
      "h < length (streams s)" "writable (streams s ! h)" "ws \<noteq> []"
    using that len
    by (simp add: processAudio_def Let_def a stream_write_def stream_end_def)
  show ?thesis
    using d by (simp add: a b c processAudio_depends_on_bytes)
qed

text \<open>Three samples, and what is written for them to the stream of a socket that has
  just connected.\<close>

theorem audio_encodings_agree_witness:
  "audioBuffer_of (as_number_array [1, - 2, 256]) = Some [1, 0, 254, 255, 0, 1] \<and>
   audioBuffer_of (as_buffer_json [1, - 2, 256]) = Some [1, 0, 254, 255, 0, 1] \<and>
   audioBuffer_of (as_binary_buffer [1, - 2, 256]) = Some [1, 0, 254, 255, 0, 1] \<and>
   written (streams (fst (processAudio ''A''
       \<lparr>buffer = as_number_array [1, - 2, 256], isFinal = False\<rparr>
       (service_run [Connection ''A'' True] new_service))) ! 0) = [[1, 0, 254, 255, 0, 1]]"
proof -
  let ?s = "service_run [Connection ''A'' True] new_service"
  have bytes: "Int16Array_buffer [1, - 2, 256] = [1, 0, 254, 255, 0, 1]"
    by (simp add: Int16Array_buffer_def int16_bytes_def drop_bit_eq_div)
  have pre: "recognizeStreams ?s ''A'' = Some 1" "stream (infos ?s ! 1) = Some 0"
    "0 < length (streams ?s)" "writable (streams ?s ! 0)" "written (streams ?s ! 0) = []"
    by (simp_all add: service_defs)
  from audio_encodings_agree [of "[1, - 2, 256]" "''A''" False ?s 1 0] pre
  show ?thesis
    by (simp add: bytes)
qed

subsection \<open>Timers and teardown\<close>

text \<open>
  Claim C3 says that teardown cancels the pending restart timer, so that no timer can
  bring a session back for a socket that is gone. Socket A connects, the provider
  delivers one result (which arms the timer) and A disconnects: the stream is destroyed
  and the registry entry removed, but timer 0 is still pending, because it is recorded
  in the object the callbacks captured and not in the object the registry holds. When
  it expires the registry has an entry for A again, with a new live stream.
\<close>

theorem timer_survives_cleanup:
  "recognizeStreams (service_run
      [Connection ''A'' True,
       StreamData 0 (Some \<lparr>alternatives = [''hello''], result_isFinal = False\<rparr>),
       Disconnect ''A''] new_service) ''A'' = None \<and>
   live_handles ''A'' (service_run
      [Connection ''A'' True,
       StreamData 0 (Some \<lparr>alternatives = [''hello''], result_isFinal = False\<rparr>),
       Disconnect ''A''] new_service) = [] \<and>
   pending_timers ''A'' (service_run
      [Connection ''A'' True,
       StreamData 0 (Some \<lparr>alternatives = [''hello''], result_isFinal = False\<rparr>),
       Disconnect ''A''] new_service) = [0] \<and>
   recognizeStreams (service_run
      [Connection ''A'' True,
       StreamData 0 (Some \<lparr>alternatives = [''hello''], result_isFinal = False\<rparr>),
       Disconnect ''A'', Timeout 0 True] new_service) ''A'' = Some 3 \<and>
   live_handles ''A'' (service_run
      [Connection ''A'' True,
       StreamData 0 (Some \<lparr>alternatives = [''hello''], result_isFinal = False\<rparr>),
       Disconnect ''A'', Timeout 0 True] new_service) = [1]"
  by (simp add: service_defs upt_rec nth_append)

text \<open>
  Claim C2 says that a call of \<^verbatim>\<open>createRecognizeStream\<close> for a socket that has an entry
  tears the prior session down in full, its timer included. Socket A connects, the
  provider delivers one result and then an error, and the stream is created again: the
  old stream is destroyed and a single stream is live, but the timer of the prior
  session is still pending.
\<close>

theorem recreation_leaves_old_timer:
  "live_handles ''A'' (service_run
      [Connection ''A'' True,
       StreamData 0 (Some \<lparr>alternatives = [''hello''], result_isFinal = False\<rparr>),
       StreamError 0 True] new_service) = [1] \<and>
   pending_timers ''A'' (service_run
      [Connection ''A'' True,
       StreamData 0 (Some \<lparr>alternatives = [''hello''], result_isFinal = False\<rparr>),
       StreamError 0 True] new_service) = [0]"
  by (simp add: service_defs upt_rec nth_append)

subsection \<open>At most one live stream for a socket\<close>

lemma service_okI:
  assumes "\<And>k r. recognizeStreams s k = Some r \<Longrightarrow> r < length (infos s)"
    and "\<And>h. h < length (streams s) \<Longrightarrow> \<not> destroyed (streams s ! h) \<Longrightarrow>
        \<exists>r. recognizeStreams s (for_socket (streams s ! h)) = Some r \<and>
             stream (infos s ! r) = Some h"
  shows "service_ok s"
  using assms unfolding service_ok_def by blast

lemma service_ok_entry:
  "service_ok s \<Longrightarrow> recognizeStreams s k = Some r \<Longrightarrow> r < length (infos s)"
  unfolding service_ok_def by blast

lemma service_ok_live:
  "service_ok s \<Longrightarrow> h < length (streams s) \<Longrightarrow> \<not> destroyed (streams s ! h) \<Longrightarrow>
   \<exists>r. recognizeStreams s (for_socket (streams s ! h)) = Some r \<and> stream (infos s ! r) = Some h"
  unfolding service_ok_def by blast

lemma new_service_ok: "service_ok new_service"
  by (simp add: service_ok_def new_service_def)

lemma nth_list_update_total:
  "(xs[i := v]) ! j = (if i = j \<and> i < length xs then v else xs ! j)"
  by (cases "i < length xs") (auto simp: nth_list_update list_update_beyond)

text \<open>\<^verbatim>\<open>cleanup\<close>, field by field.\<close>

lemma recognizeStreams_cleanup:
  "recognizeStreams (cleanup k s) = (recognizeStreams s)(k := None)"
  by (auto simp: cleanup_def Let_def clearTimeout_def stream_destroy_def
        split: option.splits)

lemma infos_cleanup: "infos (cleanup k s) = infos s"
  by (auto simp: cleanup_def Let_def clearTimeout_def stream_destroy_def
        split: option.splits)

lemma length_streams_cleanup: "length (streams (cleanup k s)) = length (streams s)"
  by (auto simp: cleanup_def Let_def clearTimeout_def stream_destroy_def
        split: option.splits)

lemma for_socket_cleanup:
  "for_socket (streams (cleanup k s) ! h) = for_socket (streams s ! h)"
  by (auto simp: cleanup_def Let_def clearTimeout_def stream_destroy_def nth_list_update_total
        split: option.splits)

lemma destroyed_cleanup:
  "h < length (streams s) \<Longrightarrow>
   destroyed (streams (cleanup k s) ! h) \<longleftrightarrow>
     destroyed (streams s ! h) \<or>
     (\<exists>r. recognizeStreams s k = Some r \<and> stream (infos s ! r) = Some h)"
  by (auto simp: cleanup_def Let_def clearTimeout_def stream_destroy_def nth_list_update_total
        split: option.splits)

lemma cleanup_ok:
  assumes "service_ok s"
  shows "service_ok (cleanup k s)"
proof (rule service_okI)
  fix k' r
  assume "recognizeStreams (cleanup k s) k' = Some r"
  then have "recognizeStreams s k' = Some r"
    by (simp add: recognizeStreams_cleanup split: if_splits)
  with assms show "r < length (infos (cleanup k s))"
    by (simp add: infos_cleanup service_ok_entry)
next
  fix h
  assume h: "h < length (streams (cleanup k s))"
    and live: "\<not> destroyed (streams (cleanup k s) ! h)"
  from h have h': "h < length (streams s)"
    by (simp add: length_streams_cleanup)
  from live h' have old: "\<not> destroyed (streams s ! h)"
    and other: "\<not> (\<exists>r. recognizeStreams s k = Some r \<and> stream (infos s ! r) = Some h)"
    by (simp_all add: destroyed_cleanup)
  from service_ok_live [OF assms h' old] obtain r
    where r: "recognizeStreams s (for_socket (streams s ! h)) = Some r"
      "stream (infos s ! r) = Some h"
    by blast
  with other have "for_socket (streams s ! h) \<noteq> k" by auto
  with r show "\<exists>r. recognizeStreams (cleanup k s) (for_socket (streams (cleanup k s) ! h)) = Some r \<and>
       stream (infos (cleanup k s) ! r) = Some h"
    by (simp add: recognizeStreams_cleanup infos_cleanup for_socket_cleanup)
qed


lemma cleanup_no_live:
  assumes "service_ok s" and "h < length (streams s)"
    and "\<not> destroyed (streams (cleanup k s) ! h)"
  shows "for_socket (streams s ! h) \<noteq> k"
proof
  assume k: "for_socket (streams s ! h) = k"
  from assms(2,3) have old: "\<not> destroyed (streams s ! h)"
    and other: "\<not> (\<exists>r. recognizeStreams s k = Some r \<and> stream (infos s ! r) = Some h)"
    by (simp_all add: destroyed_cleanup)
  from service_ok_live [OF assms(1,2) old] k other show False by simp
qed

lemma create_ok:
  assumes "service_ok s"
  shows "service_ok (snd (createRecognizeStream k lang ok s))"
proof -
  define s1 where "s1 = cleanup k s"
  have ok1: "service_ok s1"
    unfolding s1_def using assms by (rule cleanup_ok)
  have none: "recognizeStreams s1 k = None"
    by (simp add: s1_def recognizeStreams_cleanup)
  have other: "for_socket (streams s1 ! h) \<noteq> k"
    if "h < length (streams s1)" "\<not> destroyed (streams s1 ! h)" for h
    using service_ok_live [OF ok1 that] none by auto
  have entry: "r < length (infos s1)" if "recognizeStreams s1 k' = Some r" for k' r
    using ok1 that by (rule service_ok_entry)
  show ?thesis
  proof (cases ok)
    case False
    show ?thesis
    proof (rule service_okI)
      fix k' r
      assume "recognizeStreams (snd (createRecognizeStream k lang ok s)) k' = Some r"
      with False entry [of k' r]
      show "r < length (infos (snd (createRecognizeStream k lang ok s)))"
        by (auto simp: createRecognizeStream_def Let_def s1_def [symmetric] split: if_splits)
    next
      fix h
      assume "h < length (streams (snd (createRecognizeStream k lang ok s)))"
        and "\<not> destroyed (streams (snd (createRecognizeStream k lang ok s)) ! h)"
      with False have h: "h < length (streams s1)" and live: "\<not> destroyed (streams s1 ! h)"
        by (simp_all add: createRecognizeStream_def Let_def s1_def [symmetric])
      from service_ok_live [OF ok1 h live] obtain r
        where r: "recognizeStreams s1 (for_socket (streams s1 ! h)) = Some r"
          "stream (infos s1 ! r) = Some h"
        by blast
      from entry [OF r(1)] r other [OF h live] False
      show "\<exists>r. recognizeStreams (snd (createRecognizeStream k lang ok s))
                 (for_socket (streams (snd (createRecognizeStream k lang ok s)) ! h)) = Some r \<and>
             stream (infos (snd (createRecognizeStream k lang ok s)) ! r) = Some h"
        by (simp add: createRecognizeStream_def Let_def s1_def [symmetric] nth_append)
    qed
  next
    case True
    show ?thesis
    proof (rule service_okI)
      fix k' r
      assume "recognizeStreams (snd (createRecognizeStream k lang ok s)) k' = Some r"
      with True entry [of k' r]
      show "r < length (infos (snd (createRecognizeStream k lang ok s)))"
        by (auto simp: createRecognizeStream_def Let_def s1_def [symmetric] split: if_splits)
    next
      fix h
      assume h': "h < length (streams (snd (createRecognizeStream k lang ok s)))"
        and live': "\<not> destroyed (streams (snd (createRecognizeStream k lang ok s)) ! h)"
      show "\<exists>r. recognizeStreams (snd (createRecognizeStream k lang ok s))
                 (for_socket (streams (snd (createRecognizeStream k lang ok s)) ! h)) = Some r \<and>
             stream (infos (snd (createRecognizeStream k lang ok s)) ! r) = Some h"
      proof (cases "h < length (streams s1)")
        case False
        with h' True have "h = length (streams s1)"
          by (simp add: createRecognizeStream_def Let_def s1_def [symmetric])
        with True show ?thesis
          by (simp add: createRecognizeStream_def Let_def s1_def [symmetric] nth_append)
      next
        case h: True
        with live' \<open>ok\<close> have live: "\<not> destroyed (streams s1 ! h)"
          by (simp add: createRecognizeStream_def Let_def s1_def [symmetric] nth_append)
        from service_ok_live [OF ok1 h live] obtain r
          where r: "recognizeStreams s1 (for_socket (streams s1 ! h)) = Some r"
            "stream (infos s1 ! r) = Some h"
          by blast
        from entry [OF r(1)] r other [OF h live] h \<open>ok\<close>
        show ?thesis
          by (simp add: createRecognizeStream_def Let_def s1_def [symmetric] nth_append
                nth_list_update_total)
      qed
    qed
  qed
qed


lemma service_ok_same:
  assumes "service_ok s"
    and "recognizeStreams s' = recognizeStreams s"
    and "length (infos s') = length (infos s)"
    and "\<And>r. stream (infos s' ! r) = stream (infos s ! r)"
    and "length (streams s') = length (streams s)"
    and "\<And>h. destroyed (streams s' ! h) = destroyed (streams s ! h)"
    and "\<And>h. for_socket (streams s' ! h) = for_socket (streams s ! h)"
  shows "service_ok s'"
  using assms unfolding service_ok_def by simp

lemma setupRestartTimer_ok:
  "service_ok s \<Longrightarrow> service_ok (setupRestartTimer h s)"
  by (erule service_ok_same)
     (auto simp: setupRestartTimer_def Let_def clearTimeout_def nth_list_update_total
        split: option.splits)

lemma on_stream_data_ok:
  "service_ok s \<Longrightarrow> service_ok (fst (on_stream_data h result s))"
  by (auto simp: on_stream_data_def Let_def setupRestartTimer_ok
        split: option.splits list.splits)

lemma set_socket_ok:
  "service_ok s \<Longrightarrow>
   service_ok (s\<lparr>infos := (infos s)[r := (infos s ! r)\<lparr>socket := Some sock\<rparr>]\<rparr>)"
  by (erule service_ok_same) (auto simp: nth_list_update_total)

lemma bindSocketToStream_ok:
  assumes "service_ok s"
  shows "service_ok (bindSocketToStream k sock ok s)"
proof (cases "recognizeStreams s k")
  case (Some r)
  with assms show ?thesis
    by (simp add: bindSocketToStream_def set_socket_ok)
next
  case None
  from create_ok [OF assms, of k "''en-US''" ok]
  have "service_ok (snd (createRecognizeStream k ''en-US'' ok s))" .
  with None show ?thesis
    by (auto simp: bindSocketToStream_def set_socket_ok
          split: prod.splits sum.splits option.splits)
qed

lemma on_connection_ok:
  assumes "service_ok s"
  shows "service_ok (on_connection k ok s)"
proof -
  from create_ok [OF assms, of k "''en-US''" ok]
  have "service_ok (snd (createRecognizeStream k ''en-US'' ok s))" .
  then show ?thesis
    by (auto simp: on_connection_def bindSocketToStream_ok split: prod.splits sum.splits)
qed

lemma processAudio_ok:
  "service_ok s \<Longrightarrow> service_ok (fst (processAudio k d s))"
  by (erule service_ok_same)
     (auto simp: processAudio_def Let_def stream_write_def stream_end_def
        nth_list_update_total split: option.splits)

lemma on_stream_error_ok:
  assumes "service_ok s"
  shows "service_ok (on_stream_error h ok s)"
proof -
  let ?st = "streams s ! h"
  from create_ok [OF assms, of "for_socket ?st" "for_language ?st" ok]
  have "service_ok (snd (createRecognizeStream (for_socket ?st) (for_language ?st) ok s))" .
  then show ?thesis
    by (auto simp: on_stream_error_def Let_def cleanup_ok split: prod.splits sum.splits)
qed

lemma on_timeout_ok:
  assumes "service_ok s"
  shows "service_ok (on_timeout t ok s)"
proof (cases "t < length (timeouts s) \<and> pending (timeouts s ! t)")
  case False
  with assms show ?thesis by (auto simp: on_timeout_def)
next
  case True
  let ?s1 = "s\<lparr>timeouts := (timeouts s)[t := (timeouts s ! t)\<lparr>pending := False\<rparr>]\<rparr>"
  have "service_ok ?s1"
    using assms by (rule service_ok_same) simp_all
  then have "service_ok (snd (createRecognizeStream (timeout_socket (timeouts s ! t))
      (timeout_language (timeouts s ! t)) ok ?s1))"
    by (rule create_ok)
  with True show ?thesis
    by (simp add: on_timeout_def Let_def)
qed

lemma service_step_ok: "service_ok s \<Longrightarrow> service_ok (service_step e s)"
  by (cases e)
     (simp_all add: on_connection_ok processAudio_ok cleanup_ok on_stream_data_ok
        on_stream_error_ok on_timeout_ok)

lemma service_run_ok: "service_ok s \<Longrightarrow> service_ok (service_run es s)"
  by (induction es arbitrary: s) (simp_all add: service_step_ok)

lemma distinct_all_equal:
  "distinct xs \<Longrightarrow> (\<And>x. x \<in> set xs \<Longrightarrow> x = a) \<Longrightarrow> length xs \<le> 1"
  by (cases xs; cases "tl xs") auto

lemma live_handle_registered:
  assumes "service_ok s" and "h \<in> set (live_handles k s)"
  shows "\<exists>r. recognizeStreams s k = Some r \<and> stream (infos s ! r) = Some h"
proof -
  from assms(2) have "h < length (streams s)" "\<not> destroyed (streams s ! h)"
    and k: "for_socket (streams s ! h) = k"
    by (simp_all add: live_handles_def)
  from service_ok_live [OF assms(1) this(1,2)] k show ?thesis by simp
qed

lemma service_ok_one_live:
  assumes "service_ok s"
  shows "length (live_handles k s) \<le> 1"
proof (cases "live_handles k s")
  case Nil
  then show ?thesis by simp
next
  case (Cons h0 rest)
  then have "h0 \<in> set (live_handles k s)" by simp
  from live_handle_registered [OF assms this] obtain r
    where r: "recognizeStreams s k = Some r" "stream (infos s ! r) = Some h0"
    by blast
  have "distinct (live_handles k s)"
    by (simp add: live_handles_def)
  moreover have "h = h0" if "h \<in> set (live_handles k s)" for h
    using live_handle_registered [OF assms that] r by auto
  ultimately show ?thesis by (rule distinct_all_equal)
qed

text \<open>The part of claim C2 that the code keeps: whatever the events, a socket never has
  two stream handles that are live at once.\<close>

lemma at_most_one_live_handle:
  "length (live_handles k (service_run es new_service)) \<le> 1"
  by (rule service_ok_one_live) (rule service_run_ok, rule new_service_ok)

subsection \<open>The registry never records a timer\<close>

lemma no_timerI:
  assumes "\<And>k r. recognizeStreams s k = Some r \<Longrightarrow>
      r < length (infos s) \<and> restartTimer (infos s ! r) = None \<and>
      (\<forall>h. h < length (streams s) \<longrightarrow> for_info (streams s ! h) \<noteq> r)"
    and "\<And>h. h < length (streams s) \<Longrightarrow> for_info (streams s ! h) < length (infos s)"
  shows "registry_has_no_timer s"
  using assms unfolding registry_has_no_timer_def by blast

lemma no_timer_entry:
  "registry_has_no_timer s \<Longrightarrow> recognizeStreams s k = Some r \<Longrightarrow>
   r < length (infos s) \<and> restartTimer (infos s ! r) = None \<and>
   (\<forall>h. h < length (streams s) \<longrightarrow> for_info (streams s ! h) \<noteq> r)"
  unfolding registry_has_no_timer_def by blast

lemma no_timer_info:
  "registry_has_no_timer s \<Longrightarrow> h < length (streams s) \<Longrightarrow>
   for_info (streams s ! h) < length (infos s)"
  unfolding registry_has_no_timer_def by blast

lemma new_service_no_timer: "registry_has_no_timer new_service"
  by (simp add: registry_has_no_timer_def new_service_def)

lemma for_info_cleanup:
  "for_info (streams (cleanup k s) ! h) = for_info (streams s ! h)"
  by (auto simp: cleanup_def Let_def clearTimeout_def stream_destroy_def nth_list_update_total
        split: option.splits)

lemma cleanup_no_timer:
  assumes "registry_has_no_timer s"
  shows "registry_has_no_timer (cleanup k s)"
proof (rule no_timerI)
  fix k' r
  assume "recognizeStreams (cleanup k s) k' = Some r"
  then have "recognizeStreams s k' = Some r"
    by (simp add: recognizeStreams_cleanup split: if_splits)
  from no_timer_entry [OF assms this]
  show "r < length (infos (cleanup k s)) \<and> restartTimer (infos (cleanup k s) ! r) = None \<and>
      (\<forall>h. h < length (streams (cleanup k s)) \<longrightarrow> for_info (streams (cleanup k s) ! h) \<noteq> r)"
    by (simp add: infos_cleanup length_streams_cleanup for_info_cleanup)
next
  fix h
  assume "h < length (streams (cleanup k s))"
  with assms show "for_info (streams (cleanup k s) ! h) < length (infos (cleanup k s))"
    by (simp add: infos_cleanup length_streams_cleanup for_info_cleanup no_timer_info)
qed

lemma create_no_timer:
  assumes "registry_has_no_timer s"
  shows "registry_has_no_timer (snd (createRecognizeStream k lang ok s))"
proof -
  define s1 where "s1 = cleanup k s"
  have inv1: "registry_has_no_timer s1"
    unfolding s1_def using assms by (rule cleanup_no_timer)
  have info: "for_info (streams s1 ! h) < length (infos s1)" if "h < length (streams s1)" for h
    using inv1 that by (rule no_timer_info)
  show ?thesis
  proof (rule no_timerI)
    fix k' r
    assume reg: "recognizeStreams (snd (createRecognizeStream k lang ok s)) k' = Some r"
    show "r < length (infos (snd (createRecognizeStream k lang ok s))) \<and>
        restartTimer (infos (snd (createRecognizeStream k lang ok s)) ! r) = None \<and>
        (\<forall>h. h < length (streams (snd (createRecognizeStream k lang ok s))) \<longrightarrow>
           for_info (streams (snd (createRecognizeStream k lang ok s)) ! h) \<noteq> r)"
    proof (cases "k' = k")
      case True
      have fresh: "for_info (streams s1 ! h) \<noteq> length (infos s1)"
        "for_info (streams s1 ! h) \<noteq> Suc (length (infos s1))"
        if "h < length (streams s1)" for h
        using info [OF that] by simp_all
      from True reg fresh show ?thesis
        by (cases ok)
           (auto simp: createRecognizeStream_def Let_def s1_def [symmetric] nth_append
              less_Suc_eq)
    next
      case False
      with reg have old: "recognizeStreams s1 k' = Some r"
        by (cases ok) (simp_all add: createRecognizeStream_def Let_def s1_def [symmetric])
      from no_timer_entry [OF inv1 old] show ?thesis
        by (cases ok)
           (auto simp: createRecognizeStream_def Let_def s1_def [symmetric] nth_append
              nth_list_update_total less_Suc_eq)
    qed
  next
    fix h
    assume "h < length (streams (snd (createRecognizeStream k lang ok s)))"
    with info [of h]
    show "for_info (streams (snd (createRecognizeStream k lang ok s)) ! h)
        < length (infos (snd (createRecognizeStream k lang ok s)))"
      by (cases ok)
         (auto simp: createRecognizeStream_def Let_def s1_def [symmetric] nth_append
            less_Suc_eq)
  qed
qed


lemma no_timer_same:
  assumes "registry_has_no_timer s"
    and "recognizeStreams s' = recognizeStreams s"
    and "length (infos s') = length (infos s)"
    and "\<And>k r. recognizeStreams s k = Some r \<Longrightarrow>
           restartTimer (infos s' ! r) = restartTimer (infos s ! r)"
    and "length (streams s') = length (streams s)"
    and "\<And>h. for_info (streams s' ! h) = for_info (streams s ! h)"
  shows "registry_has_no_timer s'"
  using assms unfolding registry_has_no_timer_def by simp

lemma setupRestartTimer_no_timer:
  assumes "registry_has_no_timer s" and "h < length (streams s)"
  shows "registry_has_no_timer (setupRestartTimer h s)"
  using assms(1)
proof (rule no_timer_same)
  fix k r
  assume "recognizeStreams s k = Some r"
  from no_timer_entry [OF assms(1) this] assms(2)
  have "for_info (streams s ! h) \<noteq> r" by blast
  then show "restartTimer (infos (setupRestartTimer h s) ! r) = restartTimer (infos s ! r)"
    by (auto simp: setupRestartTimer_def Let_def clearTimeout_def nth_list_update_total
          split: option.splits)
qed (auto simp: setupRestartTimer_def Let_def clearTimeout_def split: option.splits)

lemma on_stream_data_no_timer:
  "registry_has_no_timer s \<Longrightarrow> h < length (streams s) \<Longrightarrow>
   registry_has_no_timer (fst (on_stream_data h result s))"
  by (auto simp: on_stream_data_def Let_def setupRestartTimer_no_timer
        split: option.splits list.splits)

lemma set_socket_no_timer:
  "registry_has_no_timer s \<Longrightarrow>
   registry_has_no_timer (s\<lparr>infos := (infos s)[r := (infos s ! r)\<lparr>socket := Some sock\<rparr>]\<rparr>)"
  by (erule no_timer_same) (auto simp: nth_list_update_total)

lemma bindSocketToStream_no_timer:
  assumes "registry_has_no_timer s"
  shows "registry_has_no_timer (bindSocketToStream k sock ok s)"
proof (cases "recognizeStreams s k")
  case (Some r)
  with assms show ?thesis
    by (simp add: bindSocketToStream_def set_socket_no_timer)
next
  case None
  from create_no_timer [OF assms, of k "''en-US''" ok]
  have "registry_has_no_timer (snd (createRecognizeStream k ''en-US'' ok s))" .
  with None show ?thesis
    by (auto simp: bindSocketToStream_def set_socket_no_timer
          split: prod.splits sum.splits option.splits)
qed

lemma on_connection_no_timer:
  assumes "registry_has_no_timer s"
  shows "registry_has_no_timer (on_connection k ok s)"
proof -
  from create_no_timer [OF assms, of k "''en-US''" ok]
  have "registry_has_no_timer (snd (createRecognizeStream k ''en-US'' ok s))" .
  then show ?thesis
    by (auto simp: on_connection_def bindSocketToStream_no_timer split: prod.splits sum.splits)
qed

lemma processAudio_no_timer:
  "registry_has_no_timer s \<Longrightarrow> registry_has_no_timer (fst (processAudio k d s))"
  by (erule no_timer_same)
     (auto simp: processAudio_def Let_def stream_write_def stream_end_def
        nth_list_update_total split: option.splits)

lemma on_stream_error_no_timer:
  assumes "registry_has_no_timer s"
  shows "registry_has_no_timer (on_stream_error h ok s)"
proof -
  let ?st = "streams s ! h"
  from create_no_timer [OF assms, of "for_socket ?st" "for_language ?st" ok]
  have "registry_has_no_timer
      (snd (createRecognizeStream (for_socket ?st) (for_language ?st) ok s))" .
  then show ?thesis
    by (auto simp: on_stream_error_def Let_def cleanup_no_timer split: prod.splits sum.splits)
qed

lemma on_timeout_no_timer:
  assumes "registry_has_no_timer s"
  shows "registry_has_no_timer (on_timeout t ok s)"
proof (cases "t < length (timeouts s) \<and> pending (timeouts s ! t)")
  case False
  with assms show ?thesis by (auto simp: on_timeout_def)
next
  case True
  let ?s1 = "s\<lparr>timeouts := (timeouts s)[t := (timeouts s ! t)\<lparr>pending := False\<rparr>]\<rparr>"
  have "registry_has_no_timer ?s1"
    using assms by (rule no_timer_same) simp_all
  then have "registry_has_no_timer (snd (createRecognizeStream (timeout_socket (timeouts s ! t))
      (timeout_language (timeouts s ! t)) ok ?s1))"
    by (rule create_no_timer)
  with True show ?thesis
    by (simp add: on_timeout_def Let_def)
qed

lemma service_step_no_timer:
  "registry_has_no_timer s \<Longrightarrow> registry_has_no_timer (service_step e s)"
  by (cases e)
     (simp_all add: on_connection_no_timer processAudio_no_timer cleanup_no_timer
        on_stream_data_no_timer on_stream_error_no_timer on_timeout_no_timer)

lemma service_run_no_timer:
  "registry_has_no_timer s \<Longrightarrow> registry_has_no_timer (service_run es s)"
  by (induction es arbitrary: s) (simp_all add: service_step_no_timer)

lemma cleanup_keeps_timeouts:
  "registry_has_no_timer s \<Longrightarrow> timeouts (cleanup k s) = timeouts s"
  by (auto simp: cleanup_def Let_def stream_destroy_def split: option.splits
        dest: no_timer_entry)

text \<open>The defect behind claims C2 and C3 in general: whatever the events so far,
  \<^verbatim>\<open>cleanup\<close> cancels no timer.\<close>

lemma cleanup_cancels_no_timer:
  "timeouts (cleanup k (service_run es new_service)) = timeouts (service_run es new_service)"
  by (rule cleanup_keeps_timeouts) (rule service_run_no_timer, rule new_service_no_timer)

end
